theory Spec2Isabelle
  imports Main
begin

section \<open>The host document\<close>

text \<open>
  The class \<open>MobileModalOptimizer\<close> of \<open>src/utils/mobileModal.js\<close> works on the
  browser's document. Elements are references, compared by identity: an element is a number.
  A mutation record may also carry nodes that are not elements (text, comments); the
  observer's test \<open>node.nodeType === Node.ELEMENT_NODE\<close> tells them apart. Every method
  of the class is called on elements only, so the source's guards \<open>element.matches &&\<close>,
  \<open>element.classList &&\<close> and \<open>element.querySelectorAll ?\<close> are always true there.
\<close>

type_synonym element = nat

datatype node = ElementNode element | TextNode nat

definition ELEMENT_NODE :: nat where
  "ELEMENT_NODE = 1"

fun nodeType :: "node \<Rightarrow> nat" where
  "nodeType (ElementNode e) = 1"
| "nodeType (TextNode t) = 3"

text \<open>\<open>document.body\<close> is an element like any other.\<close>

definition body :: element where
  "body = 0"

text \<open>
  The selectors of the source are class selectors and attribute-equality selectors, joined
  by commas into groups.
\<close>

datatype selector = ClassSel string | AttrSel string string

type_synonym selectorGroup = "selector list"

text \<open>A childList mutation record.\<close>

record mutation =
  addedNodes :: "node list"
  removedNodes :: "node list"

text \<open>
  The three closures the class registers as event listeners, and the two it hands to
  \<open>setTimeout\<close>.
\<close>

datatype handler =
    CloseClick element
  | BackdropClick element element
  | CloseSignal element

datatype task =
    SlideIn element
  | DoClose element

text \<open>
  The state: the two fields of the object (\<open>activeModals\<close>, \<open>originalBodyStyles\<close>),
  and what the code reads and writes of the host. \<open>originalBodyStyles\<close> is a JavaScript
  object: its keys in insertion order with their values. \<open>subtree e\<close> lists the
  element descendants of \<open>e\<close> in document order (what \<open>e.querySelectorAll('*')\<close>
  returns) and \<open>documentElements\<close> those of the document; \<open>cascade e st\<close> is the
  computed style the browser derives for \<open>e\<close> when its inline style is \<open>st\<close>
  (\<open>window.getComputedStyle\<close>). An inline style property that is not set reads as the
  empty string. Pending timers carry the time at which they are due.
\<close>

record state =
  activeModals :: "element list"
  originalBodyStyles :: "(string \<times> string) list"
  classList :: "element \<Rightarrow> string list"
  attributes :: "element \<Rightarrow> string \<Rightarrow> string option"
  style :: "element \<Rightarrow> string \<Rightarrow> string"
  subtree :: "element \<Rightarrow> element list"
  documentElements :: "element list"
  cascade :: "element \<Rightarrow> (string \<Rightarrow> string) \<Rightarrow> string \<Rightarrow> string"
  innerWidth :: int
  listeners :: "(element \<times> string \<times> handler) list"
  dispatched :: "(element \<times> string) list"
  timers :: "(nat \<times> task) list"
  clock :: nat
  nextId :: element

subsection \<open>Host operations\<close>

definition hasAttribute :: "state \<Rightarrow> element \<Rightarrow> string \<Rightarrow> bool" where
  "hasAttribute s e a = (attributes s e a \<noteq> None)"

definition setAttribute :: "state \<Rightarrow> element \<Rightarrow> string \<Rightarrow> string \<Rightarrow> state" where
  "setAttribute s e a v = s\<lparr>attributes := (attributes s)(e := (attributes s e)(a \<mapsto> v))\<rparr>"

definition removeAttribute :: "state \<Rightarrow> element \<Rightarrow> string \<Rightarrow> state" where
  "removeAttribute s e a = s\<lparr>attributes := (attributes s)(e := (attributes s e)(a := None))\<rparr>"

definition setStyle :: "state \<Rightarrow> element \<Rightarrow> string \<Rightarrow> string \<Rightarrow> state" where
  "setStyle s e p v = s\<lparr>style := (style s)(e := (style s e)(p := v))\<rparr>"

text \<open>\<open>e.style.cssText += decls\<close>: the declarations are applied in order.\<close>

definition appendCssText :: "state \<Rightarrow> element \<Rightarrow> (string \<times> string) list \<Rightarrow> state" where
  "appendCssText s e decls = fold (\<lambda>(p, v) st. setStyle st e p v) decls s"

definition getComputedStyle :: "state \<Rightarrow> element \<Rightarrow> string \<Rightarrow> string" where
  "getComputedStyle s e p = cascade s e (style s e) p"

definition classListAdd :: "state \<Rightarrow> element \<Rightarrow> string \<Rightarrow> state" where
  "classListAdd s e c =
     s\<lparr>classList := (classList s)(e :=
          (if c \<in> set (classList s e) then classList s e else classList s e @ [c]))\<rparr>"

definition classListRemove :: "state \<Rightarrow> element \<Rightarrow> string \<Rightarrow> state" where
  "classListRemove s e c = s\<lparr>classList := (classList s)(e := removeAll c (classList s e))\<rparr>"

definition addEventListener :: "state \<Rightarrow> element \<Rightarrow> string \<Rightarrow> handler \<Rightarrow> state" where
  "addEventListener s e ev h = s\<lparr>listeners := listeners s @ [(e, ev, h)]\<rparr>"

definition dispatchEvent :: "state \<Rightarrow> element \<Rightarrow> string \<Rightarrow> state" where
  "dispatchEvent s e ev = s\<lparr>dispatched := dispatched s @ [(e, ev)]\<rparr>"

definition setTimeout :: "state \<Rightarrow> task \<Rightarrow> nat \<Rightarrow> state" where
  "setTimeout s k delay = s\<lparr>timers := timers s @ [(clock s + delay, k)]\<rparr>"

fun matches :: "state \<Rightarrow> element \<Rightarrow> selector \<Rightarrow> bool" where
  "matches s e (ClassSel c) = (c \<in> set (classList s e))"
| "matches s e (AttrSel a v) = (attributes s e a = Some v)"

definition matchesGroup :: "state \<Rightarrow> selectorGroup \<Rightarrow> element \<Rightarrow> bool" where
  "matchesGroup s g e = list_ex (matches s e) g"

definition querySelectorAll :: "state \<Rightarrow> element \<Rightarrow> selectorGroup \<Rightarrow> element list" where
  "querySelectorAll s e g = filter (matchesGroup s g) (subtree s e)"

definition querySelector :: "state \<Rightarrow> element \<Rightarrow> selectorGroup \<Rightarrow> element option" where
  "querySelector s e g = (case querySelectorAll s e g of [] \<Rightarrow> None | x # _ \<Rightarrow> Some x)"

definition documentQuerySelectorAll :: "state \<Rightarrow> selectorGroup \<Rightarrow> element list" where
  "documentQuerySelectorAll s g = filter (matchesGroup s g) (documentElements s)"

text \<open>
  \<open>parent.insertBefore(child, parent.firstChild)\<close> for a new element \<open>child\<close>: in
  document order the new element comes right after its parent, in the parent's own subtree
  at the front.
\<close>

fun insertAfter :: "element \<Rightarrow> element \<Rightarrow> element list \<Rightarrow> element list" where
  "insertAfter p c [] = []"
| "insertAfter p c (x # xs) = (if x = p then x # c # xs else x # insertAfter p c xs)"

definition insertInto ::
  "element \<Rightarrow> element \<Rightarrow> (element \<Rightarrow> element list) \<Rightarrow> element \<Rightarrow> element list" where
  "insertInto parent child st x =
     (if x = parent then child # st x else insertAfter parent child (st x))"

definition insertFirstChild :: "state \<Rightarrow> element \<Rightarrow> element \<Rightarrow> state" where
  "insertFirstChild s parent child =
     s\<lparr>subtree := insertInto parent child (subtree s),
       documentElements := insertAfter parent child (documentElements s)\<rparr>"

text \<open>\<open>document.createElement('div')\<close>: a new element with nothing set.\<close>

definition createElement :: "state \<Rightarrow> element \<times> state" where
  "createElement s =
     (nextId s,
      s\<lparr>classList := (classList s)(nextId s := []),
        attributes := (attributes s)(nextId s := Map.empty),
        style := (style s)(nextId s := (\<lambda>p. [])),
        subtree := (subtree s)(nextId s := []),
        nextId := Suc (nextId s)\<rparr>)"

subsection \<open>JavaScript arrays\<close>

text \<open>\<open>xs.indexOf(x)\<close> is the first position of \<open>x\<close>, or \<open>-1\<close>;
  \<open>xs.splice(i, 1)\<close> deletes position \<open>i\<close>.\<close>

fun indexOf :: "'a list \<Rightarrow> 'a \<Rightarrow> int" where
  "indexOf [] x = - 1"
| "indexOf (y # ys) x =
     (if y = x then 0 else (let i = indexOf ys x in if i > - 1 then i + 1 else - 1))"

definition splice1 :: "'a list \<Rightarrow> int \<Rightarrow> 'a list" where
  "splice1 xs i = take (nat i) xs @ drop (Suc (nat i)) xs"

definition arrayIncludes :: "'a list \<Rightarrow> 'a \<Rightarrow> bool" where
  "arrayIncludes xs x = (x \<in> set xs)"

section \<open>MobileModalOptimizer\<close>

definition modalSelectors :: "selector list" where
  "modalSelectors =
     [ClassSel ''modal'', ClassSel ''popup'', ClassSel ''drawer'', ClassSel ''dialog'',
      AttrSel ''role'' ''dialog'', AttrSel ''role'' ''alertdialog'',
      ClassSel ''el-dialog'', ClassSel ''el-drawer'', ClassSel ''el-message-box'']"

definition removalSelectors :: selectorGroup where
  "removalSelectors =
     [ClassSel ''modal'', ClassSel ''popup'', ClassSel ''drawer'', AttrSel ''role'' ''dialog'']"

definition existingSelectors :: selectorGroup where
  "existingSelectors =
     [ClassSel ''modal'', ClassSel ''popup'', ClassSel ''drawer'', AttrSel ''role'' ''dialog'',
      ClassSel ''el-dialog'', ClassSel ''el-drawer'']"

definition contentSelectors :: "selectorGroup list" where
  "contentSelectors =
     [[ClassSel ''modal-content''], [ClassSel ''modal-body''], [ClassSel ''drawer-body''],
      [ClassSel ''el-dialog__body''], [ClassSel ''el-drawer__body''],
      [ClassSel ''content''], [ClassSel ''body'']]"

definition scrollSelectors :: "selectorGroup list" where
  "scrollSelectors =
     [[ClassSel ''modal-body''], [ClassSel ''drawer-body''], [ClassSel ''scroll-content''],
      [ClassSel ''el-dialog__body''], [ClassSel ''el-drawer__body'']]"

definition closeButtonSelectors :: selectorGroup where
  "closeButtonSelectors =
     [ClassSel ''modal-close'', ClassSel ''close-btn'', ClassSel ''el-dialog__close'',
      ClassSel ''el-drawer__close'']"

definition backdropSelectors :: selectorGroup where
  "backdropSelectors =
     [ClassSel ''modal-mask'', ClassSel ''modal-backdrop'', ClassSel ''el-overlay'']"

definition headerSelectors :: selectorGroup where
  "headerSelectors =
     [ClassSel ''modal-header'', ClassSel ''drawer-header'', ClassSel ''el-dialog__header'']"

definition trackedProperties :: "string list" where
  "trackedProperties =
     [''position'', ''top'', ''left'', ''right'', ''bottom'', ''overflow'', ''height'', ''width'']"

subsection \<open>Body styles\<close>

text \<open>\<open>saveBodyStyles\<close>: the snapshot is taken from the computed style, and only when
  the object has no key.\<close>

definition saveBodyStyles :: "state \<Rightarrow> state" where
  "saveBodyStyles s =
     (if length (map fst (originalBodyStyles s)) = 0
      then s\<lparr>originalBodyStyles :=
              [(''position'', getComputedStyle s body ''position''),
               (''top'', getComputedStyle s body ''top''),
               (''left'', getComputedStyle s body ''left''),
               (''right'', getComputedStyle s body ''right''),
               (''bottom'', getComputedStyle s body ''bottom''),
               (''overflow'', getComputedStyle s body ''overflow''),
               (''height'', getComputedStyle s body ''height''),
               (''width'', getComputedStyle s body ''width'')]\<rparr>
      else s)"

definition preventBackgroundScroll :: "state \<Rightarrow> state" where
  "preventBackgroundScroll s =
     (if \<not> hasAttribute s body ''data-modal-open''
      then
        (let s1 = setAttribute s body ''data-modal-open'' ''true'';
             s2 = setStyle s1 body ''position'' ''fixed'';
             s3 = setStyle s2 body ''top'' ''0'';
             s4 = setStyle s3 body ''left'' ''0'';
             s5 = setStyle s4 body ''right'' ''0'';
             s6 = setStyle s5 body ''bottom'' ''0'';
             s7 = setStyle s6 body ''overflow'' ''hidden'';
             s8 = setStyle s7 body ''height'' ''100vh''
         in setStyle s8 body ''width'' ''100vw'')
      else s)"

text \<open>\<open>restoreBodyStyles\<close>: every key of the snapshot is written to the inline style
  of the body, with the value the snapshot holds for it.\<close>

definition restoreProperty :: "(string \<times> string) list \<Rightarrow> string \<Rightarrow> state \<Rightarrow> state" where
  "restoreProperty obj property s =
     (case map_of obj property of Some v \<Rightarrow> setStyle s body property v | None \<Rightarrow> s)"

definition restoreBodyStyles :: "state \<Rightarrow> state" where
  "restoreBodyStyles s =
     (if hasAttribute s body ''data-modal-open''
      then
        (let s1 = removeAttribute s body ''data-modal-open'';
             s2 = fold (restoreProperty (originalBodyStyles s1)) (map fst (originalBodyStyles s1)) s1
         in s2\<lparr>originalBodyStyles := []\<rparr>)
      else s)"

subsection \<open>Layout\<close>

fun firstMatch :: "state \<Rightarrow> element \<Rightarrow> selectorGroup list \<Rightarrow> element option" where
  "firstMatch s e [] = None"
| "firstMatch s e (g # gs) =
     (case querySelector s e g of Some c \<Rightarrow> Some c | None \<Rightarrow> firstMatch s e gs)"

definition findModalContent :: "state \<Rightarrow> element \<Rightarrow> element" where
  "findModalContent s modal =
     (case firstMatch s modal contentSelectors of Some c \<Rightarrow> c | None \<Rightarrow> modal)"

definition findScrollableContent :: "state \<Rightarrow> element \<Rightarrow> element option" where
  "findScrollableContent s modal = firstMatch s modal scrollSelectors"

definition indicatorCss :: "(string \<times> string) list" where
  "indicatorCss =
     [(''width'', ''40px''), (''height'', ''4px''), (''background'', ''rgba(0, 0, 0, 0.2)''),
      (''border-radius'', ''2px''), (''margin'', ''8px auto 16px''), (''flex-shrink'', ''0'')]"

definition addTopIndicator :: "state \<Rightarrow> element \<Rightarrow> state" where
  "addTopIndicator s modalContent =
     (if querySelector s modalContent [ClassSel ''modal-indicator''] \<noteq> None then s
      else
        (let (indicator, s1) = createElement s;
             s2 = s1\<lparr>classList := (classList s1)(indicator := [''modal-indicator''])\<rparr>;
             s3 = appendCssText s2 indicator indicatorCss
         in case querySelector s3 modalContent headerSelectors of
              Some header \<Rightarrow> insertFirstChild s3 header indicator
            | None \<Rightarrow> insertFirstChild s3 modalContent indicator))"

definition mobileCss :: "(string \<times> string) list" where
  "mobileCss =
     [(''max-width'', ''100vw !important''), (''max-height'', ''90vh !important''),
      (''width'', ''100vw !important''), (''margin'', ''0 !important''),
      (''border-radius'', ''0 !important''), (''position'', ''fixed !important''),
      (''bottom'', ''0 !important''), (''left'', ''0 !important''),
      (''right'', ''0 !important''), (''top'', ''auto !important''),
      (''transform'', ''translateY(100%) !important''),
      (''transition'', ''transform 0.3s cubic-bezier(0.4, 0, 0.2, 1) !important'')]"

definition desktopCss :: "(string \<times> string) list" where
  "desktopCss =
     [(''max-width'', ''90vw !important''), (''max-height'', ''90vh !important''),
      (''position'', ''fixed !important''), (''top'', ''50% !important''),
      (''left'', ''50% !important''), (''transform'', ''translate(-50%, -50%) !important''),
      (''border-radius'', ''16px !important'')]"

definition scrollCss :: "(string \<times> string) list" where
  "scrollCss =
     [(''-webkit-overflow-scrolling'', ''touch''), (''overscroll-behavior'', ''contain''),
      (''max-height'', ''calc(90vh - 120px)''), (''overflow-y'', ''auto'')]"

definition setModalStyles :: "state \<Rightarrow> element \<Rightarrow> state" where
  "setModalStyles s modal =
     (let modalContent = findModalContent s modal in
      if innerWidth s \<le> 768
      then
        (let s1 = appendCssText s modalContent mobileCss;
             s2 = setTimeout s1 (SlideIn modalContent) 10
         in addTopIndicator s2 modalContent)
      else appendCssText s modalContent desktopCss)"

definition optimizeModalScroll :: "state \<Rightarrow> element \<Rightarrow> state" where
  "optimizeModalScroll s modal =
     (case findScrollableContent s modal of
        Some scrollableContent \<Rightarrow> appendCssText s scrollableContent scrollCss
      | None \<Rightarrow> s)"

subsection \<open>Close listeners\<close>

definition addBackdropClose :: "state \<Rightarrow> element \<Rightarrow> state" where
  "addBackdropClose s modal =
     (case querySelector s modal backdropSelectors of
        None \<Rightarrow> s
      | Some backdrop \<Rightarrow>
          (if \<not> hasAttribute s backdrop ''data-backdrop-close''
           then addEventListener (setAttribute s backdrop ''data-backdrop-close'' ''true'')
                  backdrop ''click'' (BackdropClick backdrop modal)
           else s))"

text \<open>The body of the loop over \<open>closeButtons\<close> in \<open>setupModalCloseListeners\<close>.\<close>

definition wireCloseButton :: "element \<Rightarrow> element \<Rightarrow> state \<Rightarrow> state" where
  "wireCloseButton modal button s =
     (if \<not> hasAttribute s button ''data-close-listener''
      then addEventListener (setAttribute s button ''data-close-listener'' ''true'')
             button ''click'' (CloseClick modal)
      else s)"

definition setupModalCloseListeners :: "state \<Rightarrow> element \<Rightarrow> state" where
  "setupModalCloseListeners s modal =
     (let closeButtons = querySelectorAll s modal closeButtonSelectors;
          s1 = fold (wireCloseButton modal) closeButtons s
      in addEventListener s1 modal ''close'' (CloseSignal modal))"

subsection \<open>Registration\<close>

definition applyModalOptimizations :: "state \<Rightarrow> element \<Rightarrow> state" where
  "applyModalOptimizations s modal =
     (let s1 = classListAdd s modal ''mobile-modal-optimized'';
          s2 = setModalStyles s1 modal;
          s3 = preventBackgroundScroll s2;
          s4 = addBackdropClose s3 modal
      in optimizeModalScroll s4 modal)"

definition optimizeModal :: "state \<Rightarrow> element \<Rightarrow> state" where
  "optimizeModal s modal =
     (if arrayIncludes (activeModals s) modal then s
      else
        (let s1 = s\<lparr>activeModals := activeModals s @ [modal]\<rparr>;
             s2 = saveBodyStyles s1;
             s3 = applyModalOptimizations s2 modal
         in setupModalCloseListeners s3 modal))"

text \<open>The body of the loop over \<open>childModals\<close> in \<open>checkForModal\<close>.\<close>

definition registerIfNew :: "element \<Rightarrow> state \<Rightarrow> state" where
  "registerIfNew modal s = (if \<not> arrayIncludes (activeModals s) modal then optimizeModal s modal else s)"

definition checkForModal :: "state \<Rightarrow> element \<Rightarrow> state" where
  "checkForModal s element =
     (let isModal = (list_ex (matches s element) modalSelectors \<or>
                     (''modal'' \<in> set (classList s element) \<or>
                      ''popup'' \<in> set (classList s element) \<or>
                      ''drawer'' \<in> set (classList s element)));
          s1 = (if isModal \<and> \<not> arrayIncludes (activeModals s) element
                then optimizeModal s element else s);
          childModals = querySelectorAll s1 element modalSelectors
      in fold registerIfNew childModals s1)"

text \<open>The body of the loop over \<open>childModals\<close> in \<open>checkForModalRemoval\<close>.\<close>

definition dropIfRegistered :: "element \<Rightarrow> state \<Rightarrow> state" where
  "dropIfRegistered modal s =
     (let modalIndex = indexOf (activeModals s) modal in
      if modalIndex > - 1 then s\<lparr>activeModals := splice1 (activeModals s) modalIndex\<rparr> else s)"

definition checkForModalRemoval :: "state \<Rightarrow> element \<Rightarrow> state" where
  "checkForModalRemoval s element =
     (let index = indexOf (activeModals s) element;
          s1 = (if index > - 1
                then (let r = restoreBodyStyles s
                      in r\<lparr>activeModals := splice1 (activeModals r) index\<rparr>)
                else s);
          childModals = querySelectorAll s1 element removalSelectors
      in fold dropIfRegistered childModals s1)"

text \<open>The body of the loop over \<open>existingModals\<close> in \<open>checkExistingModals\<close>.\<close>

definition registerIfShown :: "element \<Rightarrow> state \<Rightarrow> state" where
  "registerIfShown modal s =
     (if \<not> arrayIncludes (activeModals s) modal \<and> getComputedStyle s modal ''display'' \<noteq> ''none''
      then optimizeModal s modal else s)"

definition checkExistingModals :: "state \<Rightarrow> state" where
  "checkExistingModals s =
     fold registerIfShown (documentQuerySelectorAll s existingSelectors) s"

subsection \<open>Closing\<close>

definition doCloseModal :: "state \<Rightarrow> element \<Rightarrow> state" where
  "doCloseModal s modal =
     (let index = indexOf (activeModals s) modal;
          s1 = (if index > - 1 then s\<lparr>activeModals := splice1 (activeModals s) index\<rparr> else s);
          s2 = classListRemove s1 modal ''mobile-modal-optimized'';
          s3 = (if length (activeModals s2) = 0 then restoreBodyStyles s2 else s2)
      in dispatchEvent s3 modal ''closed'')"

text \<open>\<open>findModalContent\<close> always returns an element, so the test
  \<open>window.innerWidth <= 768 && modalContent\<close> is the test on the width.\<close>

definition closeModal :: "state \<Rightarrow> element \<Rightarrow> state" where
  "closeModal s modal =
     (let modalContent = findModalContent s modal in
      if innerWidth s \<le> 768
      then setTimeout (setStyle s modalContent ''transform'' ''translateY(100%) !important'')
             (DoClose modal) 300
      else doCloseModal s modal)"

text \<open>The document's \<open>keydown\<close> listener (\<open>setupKeyboardHandling\<close>), for a key.\<close>

definition keydown :: "state \<Rightarrow> string \<Rightarrow> state" where
  "keydown s key =
     (if key = ''Escape'' \<and> length (activeModals s) > 0
      then closeModal s (activeModals s ! (length (activeModals s) - 1))
      else s)"

text \<open>The bodies of the listeners, for an event whose target is \<open>target\<close>.\<close>

fun runHandler :: "state \<Rightarrow> handler \<Rightarrow> element \<Rightarrow> state" where
  "runHandler s (CloseClick modal) target = closeModal s modal"
| "runHandler s (BackdropClick backdrop modal) target =
     (if target = backdrop then closeModal s modal else s)"
| "runHandler s (CloseSignal modal) target = closeModal s modal"

subsection \<open>The mutation observer\<close>

text \<open>The bodies of the loops over \<open>addedNodes\<close> and \<open>removedNodes\<close>, and of the loop
  over the records.\<close>

definition handleAdded :: "node \<Rightarrow> state \<Rightarrow> state" where
  "handleAdded n s =
     (case n of ElementNode e \<Rightarrow> (if nodeType n = ELEMENT_NODE then checkForModal s e else s)
              | TextNode t \<Rightarrow> s)"

definition handleRemoved :: "node \<Rightarrow> state \<Rightarrow> state" where
  "handleRemoved n s =
     (case n of ElementNode e \<Rightarrow> (if nodeType n = ELEMENT_NODE then checkForModalRemoval s e else s)
              | TextNode t \<Rightarrow> s)"

definition handleMutation :: "mutation \<Rightarrow> state \<Rightarrow> state" where
  "handleMutation m s = fold handleRemoved (removedNodes m) (fold handleAdded (addedNodes m) s)"

definition observerCallback :: "state \<Rightarrow> mutation list \<Rightarrow> state" where
  "observerCallback s mutations = fold handleMutation mutations s"

subsection \<open>Timers\<close>

text \<open>
  The two timer callbacks. Neither reads the clock nor sets a timer. When \<open>t\<close>
  milliseconds pass, the timers that have become due run in the order of their due times,
  those of equal due time in the order they were set.
\<close>

fun runTask :: "task \<Rightarrow> state \<Rightarrow> state" where
  "runTask (SlideIn modalContent) s = setStyle s modalContent ''transform'' ''translateY(0) !important''"
| "runTask (DoClose modal) s = doCloseModal s modal"

definition isDue :: "nat \<Rightarrow> nat \<times> task \<Rightarrow> bool" where
  "isDue now tm = (fst tm \<le> now)"

definition elapse :: "nat \<Rightarrow> state \<Rightarrow> state" where
  "elapse t s =
     (let now = clock s + t;
          due = filter (isDue now) (timers s);
          later = filter (\<lambda>tm. \<not> isDue now tm) (timers s)
      in fold runTask (map snd (sort_key fst due)) (s\<lparr>clock := now, timers := later\<rparr>))"

subsection \<open>Construction\<close>

text \<open>\<open>new MobileModalOptimizer()\<close> on a document: both fields empty, then the scan of
  the existing overlays.\<close>

definition construct :: "state \<Rightarrow> state" where
  "construct s = checkExistingModals (s\<lparr>activeModals := [], originalBodyStyles := []\<rparr>)"

text \<open>
  The static \<open>isMobile\<close>. The static \<open>optimizeModal\<close> builds a new optimizer for
  every call and registers the node with that one; the development follows one optimizer.
\<close>

definition isMobile :: "state \<Rightarrow> bool" where
  "isMobile s = (innerWidth s \<le> 768)"

section \<open>Notions used in the statements\<close>

text \<open>The name of the lock attribute and of the marker class.\<close>

abbreviation lockAttribute :: string where
  "lockAttribute \<equiv> ''data-modal-open''"

abbreviation markerClass :: string where
  "markerClass \<equiv> ''mobile-modal-optimized''"

text \<open>A close continuation is pending when a timer holds \<open>doCloseModal\<close>.\<close>

fun isDoClose :: "task \<Rightarrow> bool" where
  "isDoClose (DoClose modal) = True"
| "isDoClose (SlideIn modalContent) = False"

definition noClosePending :: "state \<Rightarrow> bool" where
  "noClosePending s = list_all (\<lambda>tm. \<not> isDoClose (snd tm)) (timers s)"

text \<open>
  Two states have the same core when they agree on everything but the clock, the timers
  and the \<open>transform\<close> property of inline styles (the only property the two animations
  write).
\<close>

definition sameCore :: "state \<Rightarrow> state \<Rightarrow> bool" where
  "sameCore a b =
     (activeModals a = activeModals b \<and> originalBodyStyles a = originalBodyStyles b \<and>
      classList a = classList b \<and> attributes a = attributes b \<and>
      listeners a = listeners b \<and> dispatched a = dispatched b \<and>
      innerWidth a = innerWidth b \<and>
      (\<forall>e p. p \<noteq> ''transform'' \<longrightarrow> style a e p = style b e p))"

text \<open>A mutation record adds no element when its added nodes are text or comments.\<close>

definition addsNoElement :: "mutation \<Rightarrow> bool" where
  "addsNoElement r = list_all (\<lambda>n. nodeType n \<noteq> ELEMENT_NODE) (addedNodes r)"

text \<open>
  The order of handling as the specification words it, for comparison with
  \<open>observerCallback\<close>: every addition of the batch, then every removal of the batch.
\<close>

definition additionsThenRemovals :: "state \<Rightarrow> mutation list \<Rightarrow> state" where
  "additionsThenRemovals s mutations =
     fold handleRemoved (concat (map removedNodes mutations))
       (fold handleAdded (concat (map addedNodes mutations)) s)"

text \<open>
  The cascade in which an inline declaration is the computed value, and a property that is
  not set inline has the value \<open>sheet\<close> gives it (style sheets and initial values).
\<close>

definition inlineOver :: "(string \<Rightarrow> string) \<Rightarrow> (string \<Rightarrow> string) \<Rightarrow> string \<Rightarrow> string" where
  "inlineOver sheet st p = (if st p \<noteq> [] then st p else sheet p)"

subsection \<open>Example documents\<close>

text \<open>
  A cascade without style sheets: a property set inline has its inline value, any other
  the initial value of CSS (for \<open>height\<close> and \<open>width\<close> the size of the box).
\<close>

definition initialValues :: "string \<Rightarrow> string" where
  "initialValues p =
     (if p = ''position'' then ''static''
      else if p = ''top'' \<or> p = ''left'' \<or> p = ''right'' \<or> p = ''bottom'' then ''auto''
      else if p = ''overflow'' then ''visible''
      else if p = ''height'' then ''900px''
      else if p = ''width'' then ''1280px''
      else if p = ''display'' then ''block''
      else [])"

definition browserDefaults :: "element \<Rightarrow> (string \<Rightarrow> string) \<Rightarrow> string \<Rightarrow> string" where
  "browserDefaults e = inlineOver initialValues"

text \<open>
  A page of width \<open>w\<close>, nothing registered yet. Element 10 is a \<open>.modal\<close> with a
  close button (11) and a content region (12); element 20 is a \<open>.drawer\<close> with
  \<open>role="dialog"\<close>; element 30 is a plain section that contains a \<open>.popup\<close> (31).
\<close>

definition demoPage :: "int \<Rightarrow> state" where
  "demoPage w =
     \<lparr>activeModals = [], originalBodyStyles = [],
      classList = (\<lambda>e. [])(10 := [''modal''], 11 := [''modal-close''],
                            12 := [''modal-content''], 20 := [''drawer''],
                            30 := [''page-section''], 31 := [''popup'']),
      attributes = (\<lambda>e. Map.empty)(20 := [''role'' \<mapsto> ''dialog'']),
      style = (\<lambda>e p. []),
      subtree = (\<lambda>e. [])(0 := [10, 11, 12, 20, 30, 31], 10 := [11, 12], 30 := [31]),
      documentElements = [0, 10, 11, 12, 20, 30, 31],
      cascade = browserDefaults,
      innerWidth = w,
      listeners = [], dispatched = [], timers = [], clock = 0, nextId = 40\<rparr>"

text \<open>The page after the observer has seen overlays 10 and 20 inserted, in this order.\<close>

definition openPage :: "int \<Rightarrow> state" where
  "openPage w =
     observerCallback (demoPage w)
       [\<lparr>addedNodes = [ElementNode 10, ElementNode 20], removedNodes = []\<rparr>]"

text \<open>The page after the observer has seen section 30 inserted, overlay 31 inside it.\<close>

definition sectionPage :: "int \<Rightarrow> state" where
  "sectionPage w =
     observerCallback (demoPage w) [\<lparr>addedNodes = [ElementNode 30], removedNodes = []\<rparr>]"

section \<open>Basic facts\<close>

lemmas host_defs = hasAttribute_def setAttribute_def removeAttribute_def setStyle_def
  classListAdd_def classListRemove_def addEventListener_def dispatchEvent_def setTimeout_def

lemmas query_defs = matchesGroup_def querySelectorAll_def querySelector_def
  documentQuerySelectorAll_def

lemmas selector_defs = modalSelectors_def removalSelectors_def existingSelectors_def
  contentSelectors_def scrollSelectors_def closeButtonSelectors_def backdropSelectors_def
  headerSelectors_def

lemmas code_defs = saveBodyStyles_def preventBackgroundScroll_def restoreProperty_def
  restoreBodyStyles_def findModalContent_def findScrollableContent_def addTopIndicator_def
  setModalStyles_def optimizeModalScroll_def addBackdropClose_def wireCloseButton_def
  setupModalCloseListeners_def applyModalOptimizations_def optimizeModal_def
  registerIfNew_def checkForModal_def dropIfRegistered_def checkForModalRemoval_def
  registerIfShown_def checkExistingModals_def doCloseModal_def closeModal_def keydown_def
  handleAdded_def handleRemoved_def handleMutation_def observerCallback_def
  appendCssText_def getComputedStyle_def createElement_def insertFirstChild_def insertInto_def
  arrayIncludes_def splice1_def ELEMENT_NODE_def body_def
  mobileCss_def desktopCss_def scrollCss_def indicatorCss_def

text \<open>Everything needed to run the code on an example document.\<close>

lemmas eval_defs = host_defs query_defs selector_defs code_defs demoPage_def
  browserDefaults_def inlineOver_def initialValues_def Let_def
subsection \<open>Arrays\<close>

lemma indexOf_mem: "(indexOf xs x > - 1) = (x \<in> set xs)"
  by (induction xs) (auto simp: Let_def)

lemma indexOf_nonneg: "x \<in> set xs \<Longrightarrow> 0 \<le> indexOf xs x"
  using indexOf_mem [of xs x] by linarith

lemma splice1_indexOf: "x \<in> set xs \<Longrightarrow> splice1 xs (indexOf xs x) = remove1 x xs"
proof (induction xs)
  case Nil
  then show ?case by simp
next
  case (Cons y ys)
  show ?case
  proof (cases "y = x")
    case True
    then show ?thesis by (simp add: splice1_def)
  next
    case False
    with Cons.prems have mem: "x \<in> set ys" by simp
    then have nn: "0 \<le> indexOf ys x" by (rule indexOf_nonneg)
    have "splice1 ys (indexOf ys x) = remove1 x ys" using Cons.IH mem by simp
    moreover have "nat (indexOf ys x + 1) = Suc (nat (indexOf ys x))" using nn by simp
    ultimately show ?thesis using False mem nn
      by (simp add: splice1_def Let_def indexOf_mem)
  qed
qed

lemma remove1_absent: "x \<notin> set xs \<Longrightarrow> remove1 x xs = xs"
  by (rule remove1_idem)

lemma set_fold_remove1_subset: "set (fold remove1 ms xs) \<subseteq> set xs"
proof (induction ms arbitrary: xs)
  case Nil
  show ?case by simp
next
  case (Cons m ms)
  have "set (fold remove1 ms (remove1 m xs)) \<subseteq> set (remove1 m xs)" by (rule Cons.IH)
  also have "\<dots> \<subseteq> set xs" by (rule set_remove1_subset)
  finally show ?case by simp
qed

lemma distinct_fold_remove1: "distinct xs \<Longrightarrow> distinct (fold remove1 ms xs)"
  by (induction ms arbitrary: xs) simp_all

lemma set_fold_remove1: "distinct xs \<Longrightarrow> set (fold remove1 ms xs) = set xs - set ms"
  by (induction ms arbitrary: xs) auto

subsection \<open>Body styles\<close>

lemma fold_restoreProperty_frame:
  "activeModals (fold (restoreProperty obj) ks s) = activeModals s"
  "originalBodyStyles (fold (restoreProperty obj) ks s) = originalBodyStyles s"
  "classList (fold (restoreProperty obj) ks s) = classList s"
  "attributes (fold (restoreProperty obj) ks s) = attributes s"
  "listeners (fold (restoreProperty obj) ks s) = listeners s"
  "dispatched (fold (restoreProperty obj) ks s) = dispatched s"
  "timers (fold (restoreProperty obj) ks s) = timers s"
  "clock (fold (restoreProperty obj) ks s) = clock s"
  "innerWidth (fold (restoreProperty obj) ks s) = innerWidth s"
  by (induction ks arbitrary: s; simp add: restoreProperty_def setStyle_def split: option.splits)+

lemma restoreBodyStyles_frame:
  "activeModals (restoreBodyStyles s) = activeModals s"
  "classList (restoreBodyStyles s) = classList s"
  "listeners (restoreBodyStyles s) = listeners s"
  "dispatched (restoreBodyStyles s) = dispatched s"
  "timers (restoreBodyStyles s) = timers s"
  "clock (restoreBodyStyles s) = clock s"
  "innerWidth (restoreBodyStyles s) = innerWidth s"
  by (simp_all add: restoreBodyStyles_def Let_def fold_restoreProperty_frame removeAttribute_def)

lemma restoreBodyStyles_unlocked:
  "\<not> hasAttribute s body lockAttribute \<Longrightarrow> restoreBodyStyles s = s"
  by (simp add: restoreBodyStyles_def)

lemma restoreBodyStyles_clears:
  "\<not> hasAttribute (restoreBodyStyles s) body lockAttribute"
  by (simp add: restoreBodyStyles_def Let_def hasAttribute_def removeAttribute_def
      fold_restoreProperty_frame)

lemma preventBackgroundScroll_locked:
  "hasAttribute s body lockAttribute \<Longrightarrow> preventBackgroundScroll s = s"
  by (simp add: preventBackgroundScroll_def)

lemma preventBackgroundScroll_sets:
  "hasAttribute (preventBackgroundScroll s) body lockAttribute"
  by (simp add: preventBackgroundScroll_def Let_def host_defs)

subsection \<open>Removal\<close>

lemma dropIfRegistered_eq:
  "dropIfRegistered m s = s\<lparr>activeModals := remove1 m (activeModals s)\<rparr>"
  by (cases "m \<in> set (activeModals s)")
    (simp_all add: dropIfRegistered_def Let_def indexOf_mem splice1_indexOf remove1_absent)

lemma fold_dropIfRegistered_eq:
  "fold dropIfRegistered ms s = s\<lparr>activeModals := fold remove1 ms (activeModals s)\<rparr>"
  by (induction ms arbitrary: s) (simp_all add: dropIfRegistered_eq)

lemma checkForModalRemoval_absent:
  "e \<notin> set (activeModals s) \<Longrightarrow>
   checkForModalRemoval s e =
     s\<lparr>activeModals := fold remove1 (querySelectorAll s e removalSelectors) (activeModals s)\<rparr>"
  by (simp add: checkForModalRemoval_def Let_def indexOf_mem fold_dropIfRegistered_eq)

lemma checkForModalRemoval_present:
  "e \<in> set (activeModals s) \<Longrightarrow>
   checkForModalRemoval s e =
     (let r = (restoreBodyStyles s)\<lparr>activeModals := remove1 e (activeModals s)\<rparr>
      in r\<lparr>activeModals := fold remove1 (querySelectorAll r e removalSelectors) (activeModals r)\<rparr>)"
  by (simp add: checkForModalRemoval_def Let_def indexOf_mem fold_dropIfRegistered_eq
      restoreBodyStyles_frame splice1_indexOf)

lemma checkForModalRemoval_frame:
  "listeners (checkForModalRemoval s e) = listeners s"
  "dispatched (checkForModalRemoval s e) = dispatched s"
  "timers (checkForModalRemoval s e) = timers s"
  "clock (checkForModalRemoval s e) = clock s"
  "classList (checkForModalRemoval s e) = classList s"
  "innerWidth (checkForModalRemoval s e) = innerWidth s"
  by (cases "e \<in> set (activeModals s)";
      simp add: checkForModalRemoval_absent checkForModalRemoval_present Let_def
        restoreBodyStyles_frame)+

lemma checkForModalRemoval_registry:
  "set (activeModals (checkForModalRemoval s e)) \<subseteq> set (activeModals s)"
proof (cases "e \<in> set (activeModals s)")
  case True
  have "set (fold remove1 ms (remove1 e (activeModals s))) \<subseteq> set (activeModals s)" for ms
    using set_fold_remove1_subset [of ms "remove1 e (activeModals s)"]
      set_remove1_subset [of e "activeModals s"] by blast
  with True show ?thesis by (simp add: checkForModalRemoval_present Let_def)
next
  case False
  then show ?thesis by (simp add: checkForModalRemoval_absent set_fold_remove1_subset)
qed

lemma checkForModalRemoval_distinct:
  "distinct (activeModals s) \<Longrightarrow> distinct (activeModals (checkForModalRemoval s e))"
  by (cases "e \<in> set (activeModals s)")
    (simp_all add: checkForModalRemoval_absent checkForModalRemoval_present Let_def
      distinct_fold_remove1)

lemma checkForModalRemoval_gone:
  "distinct (activeModals s) \<Longrightarrow> e \<notin> set (activeModals (checkForModalRemoval s e))"
proof (cases "e \<in> set (activeModals s)")
  case True
  assume d: "distinct (activeModals s)"
  have "e \<notin> set (fold remove1 ms (remove1 e (activeModals s)))" for ms
    using set_fold_remove1_subset [of ms "remove1 e (activeModals s)"] d by auto
  with True show ?thesis by (simp add: checkForModalRemoval_present Let_def)
next
  case False
  then show ?thesis using checkForModalRemoval_registry [of s e] by blast
qed


subsection \<open>The example documents, run\<close>

lemma openPage_desktop:
  "openPage 1280 =
     \<lparr>activeModals = [10, 20],
        originalBodyStyles =
          [(''position'', ''static''), (''top'', ''auto''),
           (''left'', ''auto''), (''right'', ''auto''),
           (''bottom'', ''auto''), (''overflow'', ''visible''),
           (''height'', ''900px''), (''width'', ''1280px'')],
        classList =
          (\<lambda>e. [])
          (11 := [''modal-close''], 12 := [''modal-content''],
             30 := [''page-section''], 31 := [''popup''],
             10 := [''modal'', markerClass], 20 := [''drawer'', markerClass]),
        attributes =
          (\<lambda>e x. None)
          (20 := [''role'' \<mapsto> ''dialog''], 0 := [lockAttribute \<mapsto> ''true''],
             11 := [''data-close-listener'' \<mapsto> ''true'']),
        style =
          (\<lambda>e p. [])
          (12 :=
             (\<lambda>p. [])
             (''max-width'' := ''90vw !important'',
                ''max-height'' := ''90vh !important'',
                ''position'' := ''fixed !important'',
                ''top'' := ''50% !important'', ''left'' := ''50% !important'',
                ''transform'' := ''translate(-50%, -50%) !important'',
                ''border-radius'' := ''16px !important''),
             0 := (\<lambda>p. [])
               (''position'' := ''fixed'', ''top'' := ''0'',
                  ''left'' := ''0'', ''right'' := ''0'', ''bottom'' := ''0'',
                  ''overflow'' := ''hidden'', ''height'' := ''100vh'',
                  ''width'' := ''100vw''),
             20 :=
               (\<lambda>p. [])
               (''max-width'' := ''90vw !important'',
                  ''max-height'' := ''90vh !important'',
                  ''position'' := ''fixed !important'',
                  ''top'' := ''50% !important'',
                  ''left'' := ''50% !important'',
                  ''transform'' := ''translate(-50%, -50%) !important'',
                  ''border-radius'' := ''16px !important'')),
        subtree =
          (\<lambda>e. [])(0 := [10, 11, 12, 20, 30, 31], 10 := [11, 12], 30 := [31]),
        documentElements = [0, 10, 11, 12, 20, 30, 31],
        cascade = browserDefaults, innerWidth = 1280,
        listeners =
          [(11, ''click'', CloseClick 10), (10, ''close'', CloseSignal 10),
           (20, ''close'', CloseSignal 20)],
        dispatched = [], timers = [], clock = 0, nextId = 40\<rparr>"
  by (simp add: openPage_def eval_defs cong: let_weak_cong)

lemma openPage_mobile:
  "openPage 375 =
     \<lparr>activeModals = [10, 20],
        originalBodyStyles =
          [(''position'', ''static''), (''top'', ''auto''),
           (''left'', ''auto''), (''right'', ''auto''),
           (''bottom'', ''auto''), (''overflow'', ''visible''),
           (''height'', ''900px''), (''width'', ''1280px'')],
        classList =
          (\<lambda>e. [])
          (11 := [''modal-close''], 12 := [''modal-content''],
             30 := [''page-section''], 31 := [''popup''],
             10 := [''modal'', markerClass], 40 := [''modal-indicator''],
             20 := [''drawer'', markerClass], 41 := [''modal-indicator'']),
        attributes =
          (\<lambda>e x. None)
          (20 := [''role'' \<mapsto> ''dialog''], 40 := \<lambda>x. None,
             0 := [lockAttribute \<mapsto> ''true''],
             11 := [''data-close-listener'' \<mapsto> ''true''], 41 := \<lambda>x. None),
        style =
          (\<lambda>e p. [])
          (12 :=
             (\<lambda>p. [])
             (''max-width'' := ''100vw !important'',
                ''max-height'' := ''90vh !important'',
                ''width'' := ''100vw !important'',
                ''margin'' := ''0 !important'',
                ''border-radius'' := ''0 !important'',
                ''position'' := ''fixed !important'',
                ''bottom'' := ''0 !important'', ''left'' := ''0 !important'',
                ''right'' := ''0 !important'', ''top'' := ''auto !important'',
                ''transform'' := ''translateY(100%) !important'',
                ''transition'' :=
                  ''transform 0.3s cubic-bezier(0.4, 0, 0.2, 1) !important''),
             40 :=
               (\<lambda>p. [])
               (''width'' := ''40px'', ''height'' := ''4px'',
                  ''background'' := ''rgba(0, 0, 0, 0.2)'',
                  ''border-radius'' := ''2px'',
                  ''margin'' := ''8px auto 16px'', ''flex-shrink'' := ''0''),
             0 := (\<lambda>p. [])
               (''position'' := ''fixed'', ''top'' := ''0'',
                  ''left'' := ''0'', ''right'' := ''0'', ''bottom'' := ''0'',
                  ''overflow'' := ''hidden'', ''height'' := ''100vh'',
                  ''width'' := ''100vw''),
             20 :=
               (\<lambda>p. [])
               (''max-width'' := ''100vw !important'',
                  ''max-height'' := ''90vh !important'',
                  ''width'' := ''100vw !important'',
                  ''margin'' := ''0 !important'',
                  ''border-radius'' := ''0 !important'',
                  ''position'' := ''fixed !important'',
                  ''bottom'' := ''0 !important'',
                  ''left'' := ''0 !important'', ''right'' := ''0 !important'',
                  ''top'' := ''auto !important'',
                  ''transform'' := ''translateY(100%) !important'',
                  ''transition'' :=
                    ''transform 0.3s cubic-bezier(0.4, 0, 0.2, 1) !important''),
             41 :=
               (\<lambda>p. [])
               (''width'' := ''40px'', ''height'' := ''4px'',
                  ''background'' := ''rgba(0, 0, 0, 0.2)'',
                  ''border-radius'' := ''2px'',
                  ''margin'' := ''8px auto 16px'', ''flex-shrink'' := ''0'')),
        subtree =
          insertInto 20 41
           ((insertInto 12 40
              ((\<lambda>e. [])
               (0 := [10, 11, 12, 20, 30, 31], 10 := [11, 12], 30 := [31],
                  40 := [])))
            (41 := [])),
        documentElements = [0, 10, 11, 12, 40, 20, 41, 30, 31],
        cascade = browserDefaults, innerWidth = 375,
        listeners =
          [(11, ''click'', CloseClick 10), (10, ''close'', CloseSignal 10),
           (20, ''close'', CloseSignal 20)],
        dispatched = [], timers = [(10, SlideIn 12), (10, SlideIn 20)],
        clock = 0, nextId = 42\<rparr>"
  by (simp add: openPage_def eval_defs cong: let_weak_cong)

lemma sectionPage_desktop:
  "sectionPage 1280 =
     \<lparr>activeModals = [31],
        originalBodyStyles =
          [(''position'', ''static''), (''top'', ''auto''),
           (''left'', ''auto''), (''right'', ''auto''),
           (''bottom'', ''auto''), (''overflow'', ''visible''),
           (''height'', ''900px''), (''width'', ''1280px'')],
        classList =
          (\<lambda>e. [])
          (10 := [''modal''], 11 := [''modal-close''],
             12 := [''modal-content''], 20 := [''drawer''],
             30 := [''page-section''], 31 := [''popup'', markerClass]),
        attributes =
          (\<lambda>e x. None)
          (20 := [''role'' \<mapsto> ''dialog''], 0 := [lockAttribute \<mapsto> ''true'']),
        style =
          (\<lambda>e p. [])
          (31 :=
             (\<lambda>p. [])
             (''max-width'' := ''90vw !important'',
                ''max-height'' := ''90vh !important'',
                ''position'' := ''fixed !important'',
                ''top'' := ''50% !important'', ''left'' := ''50% !important'',
                ''transform'' := ''translate(-50%, -50%) !important'',
                ''border-radius'' := ''16px !important''),
             0 := (\<lambda>p. [])
               (''position'' := ''fixed'', ''top'' := ''0'',
                  ''left'' := ''0'', ''right'' := ''0'', ''bottom'' := ''0'',
                  ''overflow'' := ''hidden'', ''height'' := ''100vh'',
                  ''width'' := ''100vw'')),
        subtree =
          (\<lambda>e. [])(0 := [10, 11, 12, 20, 30, 31], 10 := [11, 12], 30 := [31]),
        documentElements = [0, 10, 11, 12, 20, 30, 31],
        cascade = browserDefaults, innerWidth = 1280,
        listeners = [(31, ''close'', CloseSignal 31)], dispatched = [],
        timers = [], clock = 0, nextId = 40\<rparr>"
  by (simp add: sectionPage_def eval_defs cong: let_weak_cong)

section \<open>Scroll lock\<close>

text \<open>
  C7. \<open>preventBackgroundScroll\<close> on a body that carries the lock attribute and
  \<open>restoreBodyStyles\<close> on a body that does not carry it leave the whole state as it
  is, the body included; so calling either of them twice in a row is the same as calling it
  once, in whatever state the first call was made.
\<close>

theorem scroll_lock_redundant_calls:
  "(hasAttribute s body lockAttribute \<longrightarrow> preventBackgroundScroll s = s) \<and>
   (\<not> hasAttribute s body lockAttribute \<longrightarrow> restoreBodyStyles s = s) \<and>
   preventBackgroundScroll (preventBackgroundScroll s) = preventBackgroundScroll s \<and>
   restoreBodyStyles (restoreBodyStyles s) = restoreBodyStyles s"
proof (intro conjI impI)
  show "preventBackgroundScroll (preventBackgroundScroll s) = preventBackgroundScroll s"
    by (rule preventBackgroundScroll_locked) (rule preventBackgroundScroll_sets)
  show "restoreBodyStyles (restoreBodyStyles s) = restoreBodyStyles s"
    by (rule restoreBodyStyles_unlocked) (rule restoreBodyStyles_clears)
qed (simp_all add: preventBackgroundScroll_locked restoreBodyStyles_unlocked)

theorem scroll_lock_redundant_calls_witness:
  "hasAttribute (openPage 1280) body lockAttribute \<and>
   preventBackgroundScroll (openPage 1280) = openPage 1280 \<and>
   \<not> hasAttribute (demoPage 1280) body lockAttribute \<and>
   restoreBodyStyles (demoPage 1280) = demoPage 1280"
proof -
  have locked: "hasAttribute (openPage 1280) body lockAttribute"
    by (simp add: openPage_desktop hasAttribute_def body_def)
  have unlocked: "\<not> hasAttribute (demoPage 1280) body lockAttribute"
    by (simp add: demoPage_def hasAttribute_def body_def)
  show ?thesis
    using locked unlocked scroll_lock_redundant_calls [of "openPage 1280"]
      scroll_lock_redundant_calls [of "demoPage 1280"]
    by blast
qed

section \<open>Body style snapshot\<close>

lemma style_fold_restoreProperty:
  "style (fold (restoreProperty obj) ks s) body p =
     (if p \<in> set ks then (case map_of obj p of Some v \<Rightarrow> v | None \<Rightarrow> style s body p)
      else style s body p)"
  by (induction ks arbitrary: s)
    (auto simp: restoreProperty_def setStyle_def split: option.splits)

lemma restoreBodyStyles_style:
  assumes "hasAttribute s body lockAttribute"
  shows "style (restoreBodyStyles s) body p =
     (case map_of (originalBodyStyles s) p of Some v \<Rightarrow> v | None \<Rightarrow> style s body p)"
proof (cases "map_of (originalBodyStyles s) p")
  case None
  with assms show ?thesis
    by (simp add: restoreBodyStyles_def Let_def style_fold_restoreProperty removeAttribute_def)
next
  case (Some v)
  then have "p \<in> fst ` set (originalBodyStyles s)"
    using map_of_eq_None_iff [of "originalBodyStyles s" p] by auto
  with assms Some show ?thesis
    by (simp add: restoreBodyStyles_def Let_def style_fold_restoreProperty removeAttribute_def)
qed

lemma saveBodyStyles_captures:
  "originalBodyStyles s = [] \<Longrightarrow> p \<in> set trackedProperties \<Longrightarrow>
   map_of (originalBodyStyles (saveBodyStyles s)) p = Some (getComputedStyle s body p)"
  by (auto simp: saveBodyStyles_def trackedProperties_def)

text \<open>
  What the restore writes: the inline value of a tracked property is, after the restore,
  the value the computed style had for it when the snapshot was taken.
\<close>

lemma restoreBodyStyles_writes_captured:
  assumes "originalBodyStyles s = []"
    and "originalBodyStyles s' = originalBodyStyles (saveBodyStyles s)"
    and "hasAttribute s' body lockAttribute"
    and "p \<in> set trackedProperties"
  shows "style (restoreBodyStyles s') body p = getComputedStyle s body p"
  using assms by (simp add: restoreBodyStyles_style saveBodyStyles_captures)

lemma fold_restoreProperty_cascade:
  "cascade (fold (restoreProperty obj) ks s) = cascade s"
  by (induction ks arbitrary: s) (simp_all add: restoreProperty_def setStyle_def split: option.splits)

lemma restoreBodyStyles_cascade: "cascade (restoreBodyStyles s) = cascade s"
  by (simp add: restoreBodyStyles_def Let_def fold_restoreProperty_cascade removeAttribute_def)

lemma body_styles_cascade:
  "cascade (saveBodyStyles s) = cascade s"
  "cascade (preventBackgroundScroll s) = cascade s"
  by (simp_all add: saveBodyStyles_def preventBackgroundScroll_def Let_def setAttribute_def
      setStyle_def)

text \<open>
  C5. The values the snapshot tracks are those of the computed style of the body. Let
  \<open>saveBodyStyles\<close> capture (the snapshot object was empty), and let
  \<open>restoreBodyStyles\<close> run later on a body that carries the lock attribute, with the
  snapshot so captured. Then each of the eight tracked properties has, after the restore,
  the computed value it had before the capture, whatever the inline values and the sheet
  values were; the browser's cascade being one in which an inline declaration is the
  computed value.
\<close>

theorem body_style_round_trip:
  assumes "originalBodyStyles s = []"
    and "originalBodyStyles s' = originalBodyStyles (saveBodyStyles s)"
    and "hasAttribute s' body lockAttribute"
    and "cascade s body = inlineOver sheet"
    and "cascade s' = cascade s"
    and "p \<in> set trackedProperties"
  shows "getComputedStyle (restoreBodyStyles s') body p = getComputedStyle s body p"
proof -
  have written: "style (restoreBodyStyles s') body p = getComputedStyle s body p"
    using assms(1,2,3,6) by (rule restoreBodyStyles_writes_captured)
  have before: "getComputedStyle s body p = inlineOver sheet (style s body) p"
    using assms(4) by (simp add: getComputedStyle_def)
  have "getComputedStyle (restoreBodyStyles s') body p =
        inlineOver sheet (style (restoreBodyStyles s') body) p"
    using assms(4,5) by (simp add: getComputedStyle_def restoreBodyStyles_cascade)
  also have "\<dots> = inlineOver sheet (style s body) p"
    using written before by (simp add: inlineOver_def)
  finally show ?thesis using before by simp
qed

theorem body_style_round_trip_witness:
  "originalBodyStyles (demoPage 1280) = [] \<and>
   originalBodyStyles (preventBackgroundScroll (saveBodyStyles (demoPage 1280))) =
     originalBodyStyles (saveBodyStyles (demoPage 1280)) \<and>
   hasAttribute (preventBackgroundScroll (saveBodyStyles (demoPage 1280))) body lockAttribute \<and>
   cascade (demoPage 1280) body = inlineOver initialValues \<and>
   cascade (preventBackgroundScroll (saveBodyStyles (demoPage 1280))) = cascade (demoPage 1280) \<and>
   ''height'' \<in> set trackedProperties \<and>
   getComputedStyle (demoPage 1280) body ''height'' = ''900px'' \<and>
   getComputedStyle (preventBackgroundScroll (saveBodyStyles (demoPage 1280))) body ''height'' =
     ''100vh'' \<and>
   getComputedStyle
     (restoreBodyStyles (preventBackgroundScroll (saveBodyStyles (demoPage 1280)))) body ''height'' =
     ''900px''"
proof -
  have a: "originalBodyStyles (demoPage 1280) = []" by (simp add: demoPage_def)
  have b: "originalBodyStyles (preventBackgroundScroll (saveBodyStyles (demoPage 1280))) =
           originalBodyStyles (saveBodyStyles (demoPage 1280))"
    by (simp add: preventBackgroundScroll_def Let_def host_defs)
  have c: "hasAttribute (preventBackgroundScroll (saveBodyStyles (demoPage 1280))) body lockAttribute"
    by (rule preventBackgroundScroll_sets)
  have d: "cascade (demoPage 1280) body = inlineOver initialValues"
    by (simp add: demoPage_def browserDefaults_def)
  have e: "cascade (preventBackgroundScroll (saveBodyStyles (demoPage 1280))) =
           cascade (demoPage 1280)"
    by (simp add: body_styles_cascade)
  have f: "''height'' \<in> set trackedProperties" by (simp add: trackedProperties_def)
  have g: "getComputedStyle (demoPage 1280) body ''height'' = ''900px''"
    by (simp add: getComputedStyle_def demoPage_def browserDefaults_def inlineOver_def
        initialValues_def)
  have h: "getComputedStyle (preventBackgroundScroll (saveBodyStyles (demoPage 1280))) body
      ''height'' = ''100vh''"
    by (simp add: eval_defs cong: let_weak_cong)
  show ?thesis
    using a b c d e f g h body_style_round_trip [OF a b c d e f] by simp
qed

text \<open>
  The inline style of the body is not what it was: a tracked property that was not set
  inline (it reads as the empty string) carries its computed value inline after the
  restore. On the example page the body had no inline \<open>position\<close>, \<open>height\<close> or
  \<open>width\<close>; after capture, lock and restore they are declared inline.
\<close>

lemma restore_leaves_inline_declarations:
  "style (demoPage 1280) body ''position'' = [] \<and>
   style (restoreBodyStyles (preventBackgroundScroll (saveBodyStyles (demoPage 1280)))) body
     ''position'' = ''static'' \<and>
   style (restoreBodyStyles (preventBackgroundScroll (saveBodyStyles (demoPage 1280)))) body
     ''height'' = ''900px'' \<and>
   style (restoreBodyStyles (preventBackgroundScroll (saveBodyStyles (demoPage 1280)))) body
     ''width'' = ''1280px''"
  by (simp add: eval_defs cong: let_weak_cong)

section \<open>Removal of nodes from the tree\<close>

lemma observerCallback_single_removal:
  "observerCallback s [\<lparr>addedNodes = [], removedNodes = [ElementNode m]\<rparr>] =
   checkForModalRemoval s m"
  by (simp add: observerCallback_def handleMutation_def handleRemoved_def ELEMENT_NODE_def)

text \<open>
  C8. When the observer is told that the root \<open>m\<close> of an overlay was removed, \<open>m\<close> is
  out of the registry when the callback returns; the callback sets no timer and dispatches
  no event (so no \<open>closed\<close> event on \<open>m\<close>). The registry holds every root once.
\<close>

theorem direct_removal_is_immediate:
  assumes "distinct (activeModals s)"
  shows "m \<notin> set (activeModals
           (observerCallback s [\<lparr>addedNodes = [], removedNodes = [ElementNode m]\<rparr>])) \<and>
         timers (observerCallback s [\<lparr>addedNodes = [], removedNodes = [ElementNode m]\<rparr>]) =
           timers s \<and>
         dispatched (observerCallback s [\<lparr>addedNodes = [], removedNodes = [ElementNode m]\<rparr>]) =
           dispatched s"
  using assms
  by (simp add: observerCallback_single_removal checkForModalRemoval_gone
      checkForModalRemoval_frame)

theorem direct_removal_is_immediate_witness:
  "distinct (activeModals (openPage 375)) \<and> 10 \<in> set (activeModals (openPage 375)) \<and>
   10 \<notin> set (activeModals
           (observerCallback (openPage 375) [\<lparr>addedNodes = [], removedNodes = [ElementNode 10]\<rparr>])) \<and>
   timers (observerCallback (openPage 375) [\<lparr>addedNodes = [], removedNodes = [ElementNode 10]\<rparr>]) =
     timers (openPage 375) \<and>
   dispatched (observerCallback (openPage 375) [\<lparr>addedNodes = [], removedNodes = [ElementNode 10]\<rparr>]) =
     dispatched (openPage 375)"
proof -
  have d: "distinct (activeModals (openPage 375))" by (simp add: openPage_mobile)
  have m: "10 \<in> set (activeModals (openPage 375))" by (simp add: openPage_mobile)
  show ?thesis using d m direct_removal_is_immediate [OF d, of 10] by blast
qed

text \<open>
  C9. The loop of \<open>checkForModalRemoval\<close> over the overlays below the removed element
  only splices the registry: the attributes (the lock attribute of the body among them),
  the inline styles and the snapshot are after it what they were before it. So when the
  removed element \<open>e\<close> is not itself registered, \<open>checkForModalRemoval\<close> takes the
  registered overlays it finds below \<open>e\<close> out of the registry and leaves attributes,
  inline styles and snapshot as they are, whatever becomes of the registry.
\<close>

theorem descendant_removal_leaves_body:
  "attributes (fold dropIfRegistered ms s) = attributes s \<and>
   style (fold dropIfRegistered ms s) = style s \<and>
   originalBodyStyles (fold dropIfRegistered ms s) = originalBodyStyles s \<and>
   (e \<notin> set (activeModals s) \<longrightarrow>
      attributes (checkForModalRemoval s e) = attributes s \<and>
      style (checkForModalRemoval s e) = style s \<and>
      originalBodyStyles (checkForModalRemoval s e) = originalBodyStyles s \<and>
      activeModals (checkForModalRemoval s e) =
        fold remove1 (querySelectorAll s e removalSelectors) (activeModals s))"
  by (simp add: checkForModalRemoval_absent fold_dropIfRegistered_eq)

theorem descendant_removal_leaves_body_witness:
  "30 \<notin> set (activeModals (sectionPage 1280)) \<and>
   querySelectorAll (sectionPage 1280) 30 removalSelectors = [31] \<and>
   activeModals (sectionPage 1280) = [31] \<and>
   activeModals (checkForModalRemoval (sectionPage 1280) 30) = [] \<and>
   attributes (checkForModalRemoval (sectionPage 1280) 30) body lockAttribute = Some ''true'' \<and>
   style (checkForModalRemoval (sectionPage 1280) 30) body ''position'' = ''fixed''"
proof -
  have a: "30 \<notin> set (activeModals (sectionPage 1280))" by (simp add: sectionPage_desktop)
  have q: "querySelectorAll (sectionPage 1280) 30 removalSelectors = [31]"
    by (simp add: sectionPage_desktop query_defs removalSelectors_def)
  have r: "activeModals (sectionPage 1280) = [31]" by (simp add: sectionPage_desktop)
  have l: "attributes (sectionPage 1280) body lockAttribute = Some ''true''"
    by (simp add: sectionPage_desktop body_def)
  have p: "style (sectionPage 1280) body ''position'' = ''fixed''"
    by (simp add: sectionPage_desktop body_def)
  show ?thesis
    using a q r l p descendant_removal_leaves_body [of "[]" "sectionPage 1280" 30] by simp
qed

section \<open>Closing\<close>

subsection \<open>The close continuation\<close>

lemma doCloseModal_registry: "activeModals (doCloseModal s m) = remove1 m (activeModals s)"
  by (cases "m \<in> set (activeModals s)")
    (simp_all add: doCloseModal_def Let_def indexOf_mem splice1_indexOf remove1_absent
      restoreBodyStyles_frame classListRemove_def dispatchEvent_def)

lemma doCloseModal_classList:
  "classList (doCloseModal s m) = (classList s)(m := removeAll markerClass (classList s m))"
  by (simp add: doCloseModal_def Let_def restoreBodyStyles_frame classListRemove_def
      dispatchEvent_def)

lemma doCloseModal_dispatched: "dispatched (doCloseModal s m) = dispatched s @ [(m, ''closed'')]"
  by (simp add: doCloseModal_def Let_def restoreBodyStyles_frame classListRemove_def
      dispatchEvent_def)

lemma doCloseModal_frame:
  "timers (doCloseModal s m) = timers s"
  "clock (doCloseModal s m) = clock s"
  "listeners (doCloseModal s m) = listeners s"
  "innerWidth (doCloseModal s m) = innerWidth s"
  by (simp_all add: doCloseModal_def Let_def restoreBodyStyles_frame classListRemove_def
      dispatchEvent_def)

lemma doCloseModal_unlocks:
  "remove1 m (activeModals s) = [] \<Longrightarrow> \<not> hasAttribute (doCloseModal s m) body lockAttribute"
proof -
  assume e: "remove1 m (activeModals s) = []"
  have "\<not> hasAttribute (restoreBodyStyles r) body lockAttribute" for r
    by (rule restoreBodyStyles_clears)
  then show ?thesis using e
    by (cases "m \<in> set (activeModals s)")
      (simp_all add: doCloseModal_def Let_def indexOf_mem splice1_indexOf remove1_absent
        classListRemove_def dispatchEvent_def hasAttribute_def)
qed

subsection \<open>States with the same core\<close>

lemma sameCore_refl: "sameCore a a"
  by (simp add: sameCore_def)

lemma sameCore_sym: "sameCore a b \<Longrightarrow> sameCore b a"
  by (simp add: sameCore_def)

lemma sameCore_trans: "sameCore a b \<Longrightarrow> sameCore b c \<Longrightarrow> sameCore a c"
  by (simp add: sameCore_def)

lemma style_fold_restoreProperty_any:
  "style (fold (restoreProperty obj) ks s) e p =
     (if e = body \<and> p \<in> set ks
      then (case map_of obj p of Some v \<Rightarrow> v | None \<Rightarrow> style s e p)
      else style s e p)"
  by (induction ks arbitrary: s)
    (auto simp: restoreProperty_def setStyle_def split: option.splits)

lemma sameCore_restoreBodyStyles:
  assumes "sameCore a b"
  shows "sameCore (restoreBodyStyles a) (restoreBodyStyles b)"
proof (cases "hasAttribute a body lockAttribute")
  case True
  with assms have "hasAttribute b body lockAttribute"
    by (simp add: sameCore_def hasAttribute_def)
  with True assms show ?thesis
    by (auto simp: sameCore_def restoreBodyStyles_def Let_def fold_restoreProperty_frame
        style_fold_restoreProperty_any removeAttribute_def split: option.splits)
next
  case False
  with assms have "\<not> hasAttribute b body lockAttribute"
    by (simp add: sameCore_def hasAttribute_def)
  with False assms show ?thesis by (simp add: restoreBodyStyles_unlocked)
qed

lemma sameCore_doCloseModal:
  assumes "sameCore a b"
  shows "sameCore (doCloseModal a m) (doCloseModal b m)"
proof -
  define a2 where
    "a2 = classListRemove
            (if indexOf (activeModals a) m > - 1
             then a\<lparr>activeModals := splice1 (activeModals a) (indexOf (activeModals a) m)\<rparr>
             else a) m markerClass"
  define b2 where
    "b2 = classListRemove
            (if indexOf (activeModals b) m > - 1
             then b\<lparr>activeModals := splice1 (activeModals b) (indexOf (activeModals b) m)\<rparr>
             else b) m markerClass"
  have ab: "sameCore a2 b2"
    using assms by (simp add: a2_def b2_def sameCore_def classListRemove_def)
  then have r: "sameCore (restoreBodyStyles a2) (restoreBodyStyles b2)"
    by (rule sameCore_restoreBodyStyles)
  have len: "activeModals a2 = activeModals b2" using ab by (simp add: sameCore_def)
  have da: "doCloseModal a m =
      dispatchEvent (if length (activeModals a2) = 0 then restoreBodyStyles a2 else a2) m ''closed''"
    by (simp add: doCloseModal_def Let_def a2_def)
  have db: "doCloseModal b m =
      dispatchEvent (if length (activeModals b2) = 0 then restoreBodyStyles b2 else b2) m ''closed''"
    by (simp add: doCloseModal_def Let_def b2_def)
  show ?thesis
    using ab r len unfolding da db by (simp add: sameCore_def dispatchEvent_def)
qed

lemma sameCore_slideIn: "sameCore a b \<Longrightarrow> sameCore (runTask (SlideIn c) a) b"
  by (simp add: sameCore_def setStyle_def)

lemma sameCore_fold_runTask:
  "sameCore a b \<Longrightarrow> sameCore (fold runTask ts a) (fold runTask (filter isDoClose ts) b)"
proof (induction ts arbitrary: a b)
  case Nil
  then show ?case by simp
next
  case (Cons k ts)
  show ?case
  proof (cases k)
    case (SlideIn c)
    have "sameCore (runTask (SlideIn c) a) b" using Cons.prems by (rule sameCore_slideIn)
    then show ?thesis using SlideIn Cons.IH by simp
  next
    case (DoClose m)
    have "sameCore (doCloseModal a m) (doCloseModal b m)"
      using Cons.prems by (rule sameCore_doCloseModal)
    then show ?thesis using DoClose Cons.IH by simp
  qed
qed

subsection \<open>Timers\<close>

lemma runTask_frame:
  "timers (runTask k s) = timers s" "clock (runTask k s) = clock s"
  by (cases k; simp add: setStyle_def doCloseModal_frame)+

lemma fold_runTask_frame:
  "timers (fold runTask ts s) = timers s" "clock (fold runTask ts s) = clock s"
  by (induction ts arbitrary: s; simp add: runTask_frame)+

lemma elapse_timers:
  "timers (elapse t s) = filter (\<lambda>tm. \<not> isDue (clock s + t) tm) (timers s)"
  by (simp add: elapse_def Let_def fold_runTask_frame)

lemma elapse_clock: "clock (elapse t s) = clock s + t"
  by (simp add: elapse_def Let_def fold_runTask_frame)

lemma closes_of_sorted:
  "filter isDoClose (map snd (sort_key fst due)) =
   map snd (sort_key fst (filter (\<lambda>tm. isDoClose (snd tm)) due))"
  by (simp add: filter_map filter_sort comp_def)

lemma elapse_sameCore:
  "sameCore (elapse t s)
     (fold runTask
        (map snd (sort_key fst
           (filter (\<lambda>tm. isDoClose (snd tm)) (filter (isDue (clock s + t)) (timers s))))) s)"
proof -
  have "sameCore (s\<lparr>clock := clock s + t,
                    timers := filter (\<lambda>tm. \<not> isDue (clock s + t) tm) (timers s)\<rparr>) s"
    by (simp add: sameCore_def)
  then show ?thesis
    unfolding elapse_def Let_def closes_of_sorted [symmetric]
    by (rule sameCore_fold_runTask)
qed

lemma no_close_among:
  "list_all (\<lambda>tm. \<not> isDoClose (snd tm)) T \<Longrightarrow> filter (\<lambda>tm. isDoClose (snd tm)) (filter Q T) = []"
  by (induction T) auto

lemma elapse_idle:
  assumes "noClosePending s"
  shows "sameCore (elapse t s) s"
proof -
  have e: "filter (\<lambda>tm. isDoClose (snd tm)) (filter (isDue (clock s + t)) (timers s)) = []"
    using assms unfolding noClosePending_def by (rule no_close_among)
  from elapse_sameCore [of t s] show ?thesis unfolding e by simp
qed

lemma elapse_noClosePending: "noClosePending s \<Longrightarrow> noClosePending (elapse t s)"
  by (simp add: noClosePending_def elapse_timers list_all_iff)

subsection \<open>The close trigger\<close>

lemma closeModal_desktop: "\<not> innerWidth s \<le> 768 \<Longrightarrow> closeModal s m = doCloseModal s m"
  by (simp add: closeModal_def Let_def)

lemma closeModal_mobile:
  assumes "innerWidth s \<le> 768"
  shows "sameCore (closeModal s m) s"
    and "timers (closeModal s m) = timers s @ [(clock s + 300, DoClose m)]"
    and "clock (closeModal s m) = clock s"
  using assms by (simp_all add: closeModal_def Let_def sameCore_def setStyle_def setTimeout_def)


lemma close_pending:
  assumes "noClosePending s" "innerWidth s \<le> 768" "t < 300"
  shows "sameCore (elapse t (closeModal s m)) s"
    and "timers (elapse t (closeModal s m)) =
           filter (\<lambda>tm. \<not> isDue (clock s + t) tm) (timers s) @ [(clock s + 300, DoClose m)]"
proof -
  have nd: "\<not> isDue (clock s + t) (clock s + 300, DoClose m)"
    using assms(3) by (simp add: isDue_def)
  have none: "filter (\<lambda>tm. isDoClose (snd tm)) (filter (isDue (clock s + t)) (timers s)) = []"
    using assms(1) unfolding noClosePending_def by (rule no_close_among)
  have "filter (\<lambda>tm. isDoClose (snd tm))
          (filter (isDue (clock (closeModal s m) + t)) (timers (closeModal s m))) = []"
    using nd none by (simp only: closeModal_mobile [OF assms(2)] filter_append filter.simps if_False
        append_Nil2)
  with elapse_sameCore [of t "closeModal s m"]
  have "sameCore (elapse t (closeModal s m)) (closeModal s m)" by simp
  then show "sameCore (elapse t (closeModal s m)) s"
    using closeModal_mobile(1) [OF assms(2)] by (rule sameCore_trans)
  show "timers (elapse t (closeModal s m)) =
           filter (\<lambda>tm. \<not> isDue (clock s + t) tm) (timers s) @ [(clock s + 300, DoClose m)]"
    using nd by (simp add: elapse_timers closeModal_mobile [OF assms(2)])
qed

lemma close_settles_mobile:
  assumes "noClosePending s" "innerWidth s \<le> 768" "300 \<le> t"
  shows "sameCore (elapse t (closeModal s m)) (doCloseModal s m)"
    and "noClosePending (elapse t (closeModal s m))"
proof -
  have due: "isDue (clock s + t) (clock s + 300, DoClose m)"
    using assms(3) by (simp add: isDue_def)
  have none: "filter (\<lambda>tm. isDoClose (snd tm)) (filter (isDue (clock s + t)) (timers s)) = []"
    using assms(1) unfolding noClosePending_def by (rule no_close_among)
  have "filter (\<lambda>tm. isDoClose (snd tm))
          (filter (isDue (clock (closeModal s m) + t)) (timers (closeModal s m))) =
        [(clock s + 300, DoClose m)]"
    using due none by (simp only: closeModal_mobile [OF assms(2)] filter_append filter.simps if_True
        append_Nil isDoClose.simps snd_conv)
  with elapse_sameCore [of t "closeModal s m"]
  have "sameCore (elapse t (closeModal s m)) (doCloseModal (closeModal s m) m)" by simp
  moreover have "sameCore (doCloseModal (closeModal s m) m) (doCloseModal s m)"
    using closeModal_mobile(1) [OF assms(2)] by (rule sameCore_doCloseModal)
  ultimately show "sameCore (elapse t (closeModal s m)) (doCloseModal s m)"
    by (rule sameCore_trans)
  show "noClosePending (elapse t (closeModal s m))"
    using assms(1) due
    by (simp add: noClosePending_def elapse_timers closeModal_mobile [OF assms(2)] list_all_iff)
qed

lemma close_settles:
  assumes "noClosePending s" "300 \<le> t"
  shows "sameCore (elapse t (closeModal s m)) (doCloseModal s m)"
    and "noClosePending (elapse t (closeModal s m))"
proof -
  have "sameCore (elapse t (closeModal s m)) (doCloseModal s m) \<and>
        noClosePending (elapse t (closeModal s m))"
  proof (cases "innerWidth s \<le> 768")
    case True
    then show ?thesis using close_settles_mobile [OF assms(1) True assms(2)] by simp
  next
    case False
    have n: "noClosePending (doCloseModal s m)"
      using assms(1) by (simp add: noClosePending_def doCloseModal_frame)
    show ?thesis
      using elapse_idle [OF n] elapse_noClosePending [OF n]
      by (simp add: closeModal_desktop [OF False])
  qed
  then show "sameCore (elapse t (closeModal s m)) (doCloseModal s m)"
    and "noClosePending (elapse t (closeModal s m))" by simp_all
qed

lemma keydown_escape_top:
  "activeModals s = ys @ [b] \<Longrightarrow> keydown s ''Escape'' = closeModal s b"
  by (simp add: keydown_def)

lemma escape_round:
  assumes "activeModals s = ys @ [b]" "distinct (activeModals s)" "noClosePending s" "300 \<le> t"
  shows "activeModals (elapse t (keydown s ''Escape'')) = ys"
    and "dispatched (elapse t (keydown s ''Escape'')) = dispatched s @ [(b, ''closed'')]"
    and "noClosePending (elapse t (keydown s ''Escape''))"
proof -
  have k: "keydown s ''Escape'' = closeModal s b" using assms(1) by (rule keydown_escape_top)
  have c: "sameCore (elapse t (closeModal s b)) (doCloseModal s b)"
    using assms(3,4) by (rule close_settles)
  have r: "remove1 b (ys @ [b]) = ys" using assms(1,2) by (simp add: remove1_append)
  show "activeModals (elapse t (keydown s ''Escape'')) = ys"
    using c r assms(1) by (simp add: k sameCore_def doCloseModal_registry)
  show "dispatched (elapse t (keydown s ''Escape'')) = dispatched s @ [(b, ''closed'')]"
    using c by (simp add: k sameCore_def doCloseModal_dispatched)
  show "noClosePending (elapse t (keydown s ''Escape''))"
    unfolding k using assms(3,4) by (rule close_settles)
qed



text \<open>
  C4. With \<open>A\<close> then \<open>B\<close> the last two entries of a duplicate-free registry and no
  close continuation pending, the \<open>keydown\<close> listener on Escape is \<open>closeModal\<close> on
  \<open>B\<close>; once the close has completed (300 ms or more later) \<open>B\<close> alone has left the
  registry and \<open>closed\<close> was dispatched on \<open>B\<close> alone. A second Escape is then
  \<open>closeModal\<close> on \<open>A\<close>, with the same outcome for \<open>A\<close>. On an empty registry the
  listener does nothing, whatever the key.
\<close>

theorem escape_closes_topmost:
  assumes "activeModals s = xs @ [A, B]" and "distinct (activeModals s)"
    and "noClosePending s" and "300 \<le> t1" and "300 \<le> t2"
  shows "keydown s ''Escape'' = closeModal s B \<and>
         activeModals (elapse t1 (keydown s ''Escape'')) = xs @ [A] \<and>
         dispatched (elapse t1 (keydown s ''Escape'')) = dispatched s @ [(B, ''closed'')] \<and>
         keydown (elapse t1 (keydown s ''Escape'')) ''Escape'' =
           closeModal (elapse t1 (keydown s ''Escape'')) A \<and>
         activeModals (elapse t2 (keydown (elapse t1 (keydown s ''Escape'')) ''Escape'')) = xs \<and>
         dispatched (elapse t2 (keydown (elapse t1 (keydown s ''Escape'')) ''Escape'')) =
           dispatched s @ [(B, ''closed''), (A, ''closed'')] \<and>
         (activeModals s0 = [] \<longrightarrow> keydown s0 key = s0)"
proof -
  define s1 where "s1 = elapse t1 (keydown s ''Escape'')"
  have top: "activeModals s = (xs @ [A]) @ [B]" using assms(1) by simp
  have k: "keydown s ''Escape'' = closeModal s B" using top by (rule keydown_escape_top)
  have r1: "activeModals s1 = xs @ [A]"
    unfolding s1_def using top assms(2,3,4) by (rule escape_round)
  have d1: "dispatched s1 = dispatched s @ [(B, ''closed'')]"
    unfolding s1_def using top assms(2,3,4) by (rule escape_round)
  have n1: "noClosePending s1"
    unfolding s1_def using top assms(2,3,4) by (rule escape_round)
  have dist1: "distinct (activeModals s1)" using assms(1,2) r1 by simp
  have k1: "keydown s1 ''Escape'' = closeModal s1 A" using r1 by (rule keydown_escape_top)
  have r2: "activeModals (elapse t2 (keydown s1 ''Escape'')) = xs"
    using r1 dist1 n1 assms(5) by (rule escape_round)
  have d2: "dispatched (elapse t2 (keydown s1 ''Escape'')) = dispatched s1 @ [(A, ''closed'')]"
    using r1 dist1 n1 assms(5) by (rule escape_round)
  have e: "activeModals s0 = [] \<longrightarrow> keydown s0 key = s0" by (simp add: keydown_def)
  show ?thesis
    using k r1 d1 k1 r2 d2 e unfolding s1_def by simp
qed

theorem escape_closes_topmost_witness:
  "activeModals (openPage 375) = [] @ [10, 20] \<and> distinct (activeModals (openPage 375)) \<and>
   noClosePending (openPage 375) \<and> (300::nat) \<le> 300 \<and>
   keydown (openPage 375) ''Escape'' = closeModal (openPage 375) 20 \<and>
   activeModals (elapse 300 (keydown (openPage 375) ''Escape'')) = [10] \<and>
   dispatched (elapse 300 (keydown (openPage 375) ''Escape'')) = [(20, ''closed'')] \<and>
   activeModals (elapse 300 (keydown (elapse 300 (keydown (openPage 375) ''Escape'')) ''Escape'')) = [] \<and>
   dispatched (elapse 300 (keydown (elapse 300 (keydown (openPage 375) ''Escape'')) ''Escape'')) =
     [(20, ''closed''), (10, ''closed'')] \<and>
   activeModals (demoPage 375) = [] \<and> keydown (demoPage 375) ''Escape'' = demoPage 375"
proof -
  have r: "activeModals (openPage 375) = [] @ [10, 20]" by (simp add: openPage_mobile)
  have d: "distinct (activeModals (openPage 375))" by (simp add: openPage_mobile)
  have n: "noClosePending (openPage 375)" by (simp add: openPage_mobile noClosePending_def)
  have e: "dispatched (openPage 375) = []" by (simp add: openPage_mobile)
  have z: "activeModals (demoPage 375) = []" by (simp add: demoPage_def)
  have t: "(300::nat) \<le> 300" by simp
  note run = escape_closes_topmost [OF r d n t t, of "demoPage 375" "''Escape''",
      unfolded e append_Nil]
  show ?thesis using r d n z t run by blast
qed

lemma two_closes_pending:
  assumes "activeModals s = xs @ [m]" "noClosePending s" "innerWidth s \<le> 768" "d < 300" "300 \<le> t"
  shows "dispatched (elapse t (keydown (elapse d (keydown s ''Escape'')) ''Escape'')) =
           dispatched s @ [(m, ''closed''), (m, ''closed'')]"
proof -
  define s1 where "s1 = elapse d (closeModal s m)"
  define T where "T = filter (\<lambda>tm. \<not> isDue (clock s + d) tm) (timers s)"
  have k: "keydown s ''Escape'' = closeModal s m" using assms(1) by (rule keydown_escape_top)
  have c1: "sameCore s1 s" unfolding s1_def using assms(2,3,4) by (rule close_pending)
  have t1: "timers s1 = T @ [(clock s + 300, DoClose m)]"
    unfolding s1_def T_def using assms(2,3,4) by (rule close_pending)
  have cl1: "clock s1 = clock s + d"
    by (simp add: s1_def elapse_clock closeModal_mobile [OF assms(3)])
  have r1: "activeModals s1 = xs @ [m]" using c1 assms(1) by (simp add: sameCore_def)
  have w1: "innerWidth s1 \<le> 768" using c1 assms(3) by (simp add: sameCore_def)
  have k1: "keydown s1 ''Escape'' = closeModal s1 m" using r1 by (rule keydown_escape_top)
  define s2 where "s2 = closeModal s1 m"
  have c2: "sameCore s2 s1" unfolding s2_def using w1 by (rule closeModal_mobile)
  have t2: "timers s2 = T @ [(clock s + 300, DoClose m), (clock s + d + 300, DoClose m)]"
    by (simp add: s2_def closeModal_mobile [OF w1] t1 cl1)
  have cl2: "clock s2 = clock s + d"
    by (simp add: s2_def closeModal_mobile [OF w1] cl1)
  have noT: "list_all (\<lambda>tm. \<not> isDoClose (snd tm)) T"
    using assms(2) by (simp add: T_def noClosePending_def list_all_iff)
  have none: "filter (\<lambda>tm. isDoClose (snd tm)) (filter (isDue (clock s + d + t)) T) = []"
    using noT by (rule no_close_among)
  have due: "isDue (clock s + d + t) (clock s + 300, DoClose m)"
    "isDue (clock s + d + t) (clock s + d + 300, DoClose m)"
    using assms(5) by (simp_all add: isDue_def)
  have closes: "filter (\<lambda>tm. isDoClose (snd tm)) (filter (isDue (clock s2 + t)) (timers s2)) =
        [(clock s + 300, DoClose m), (clock s + d + 300, DoClose m)]"
    using due none
    by (simp only: t2 cl2 filter_append filter.simps if_True append_Nil isDoClose.simps snd_conv)
  have sorted: "sort_key fst [(clock s + 300, DoClose m), (clock s + d + 300, DoClose m)] =
        [(clock s + 300, DoClose m), (clock s + d + 300, DoClose m)]"
    by simp
  have "sameCore (elapse t s2) (doCloseModal (doCloseModal s2 m) m)"
    using elapse_sameCore [of t s2] unfolding closes sorted by simp
  then have "dispatched (elapse t s2) = dispatched s2 @ [(m, ''closed''), (m, ''closed'')]"
    by (simp add: sameCore_def doCloseModal_dispatched)
  moreover have "dispatched s2 = dispatched s" using c1 c2 by (simp add: sameCore_def)
  ultimately show ?thesis by (simp add: k k1 s1_def [symmetric] s2_def [symmetric])
qed

text \<open>
  C10. On an element that is not in the registry \<open>doCloseModal\<close> leaves the registry
  as it is, yet the element has no marker class afterwards and \<open>closed\<close> is dispatched
  on it. So two Escape presses less than 300 ms apart on a viewport at most 768 wide, both
  of which find \<open>m\<close> on top of the registry, end with \<open>closed\<close> dispatched on \<open>m\<close>
  twice.
\<close>

theorem close_of_unregistered_still_signals:
  "(m \<notin> set (activeModals s) \<longrightarrow>
      activeModals (doCloseModal s m) = activeModals s \<and>
      markerClass \<notin> set (classList (doCloseModal s m) m) \<and>
      dispatched (doCloseModal s m) = dispatched s @ [(m, ''closed'')]) \<and>
   (activeModals s = xs @ [m] \<and> noClosePending s \<and> innerWidth s \<le> 768 \<and> d < 300 \<and> 300 \<le> t \<longrightarrow>
      dispatched (elapse t (keydown (elapse d (keydown s ''Escape'')) ''Escape'')) =
        dispatched s @ [(m, ''closed''), (m, ''closed'')])"
  using two_closes_pending [of s xs m d t]
  by (simp add: doCloseModal_registry doCloseModal_classList doCloseModal_dispatched
      remove1_absent)

theorem close_of_unregistered_still_signals_witness:
  "10 \<notin> set (activeModals (demoPage 375)) \<and>
   classList (demoPage 375) 10 = [''modal''] \<and>
   activeModals (doCloseModal (demoPage 375) 10) = [] \<and>
   dispatched (doCloseModal (demoPage 375) 10) = [(10, ''closed'')] \<and>
   activeModals (openPage 375) = [10] @ [20] \<and> noClosePending (openPage 375) \<and>
   innerWidth (openPage 375) \<le> 768 \<and> (100::nat) < 300 \<and> (300::nat) \<le> 300 \<and>
   dispatched (elapse 300 (keydown (elapse 100 (keydown (openPage 375) ''Escape'')) ''Escape'')) =
     [(20, ''closed''), (20, ''closed'')]"
proof -
  have z: "10 \<notin> set (activeModals (demoPage 375))" by (simp add: demoPage_def)
  have z1: "activeModals (demoPage 375) = []" by (simp add: demoPage_def)
  have z2: "dispatched (demoPage 375) = []" by (simp add: demoPage_def)
  have z3: "classList (demoPage 375) 10 = [''modal'']" by (simp add: demoPage_def)
  have r: "activeModals (openPage 375) = [10] @ [20]" by (simp add: openPage_mobile)
  have n: "noClosePending (openPage 375)" by (simp add: openPage_mobile noClosePending_def)
  have w: "innerWidth (openPage 375) \<le> 768" by (simp add: openPage_mobile)
  have e: "dispatched (openPage 375) = []" by (simp add: openPage_mobile)
  have d: "(100::nat) < 300" and t: "(300::nat) \<le> 300" by simp_all
  note idle = close_of_unregistered_still_signals [of 10 "demoPage 375" "[]" 0 0,
      unfolded z1 z2 append_Nil]
  note twice = close_of_unregistered_still_signals [of 20 "openPage 375" "[10]" 100 300,
      unfolded e append_Nil]
  show ?thesis using z z3 r n w d t idle twice by simp
qed

section \<open>Registration\<close>

subsection \<open>What registration leaves alone\<close>

lemma appendCssText_only_style:
  "appendCssText s e decls = s\<lparr>style := style (appendCssText s e decls)\<rparr>"
proof (induction decls arbitrary: s)
  case Nil
  show ?case by (simp add: appendCssText_def)
next
  case (Cons d ds)
  obtain p v where d: "d = (p, v)" by (cases d)
  have "appendCssText (setStyle s e p v) e ds =
        (setStyle s e p v)\<lparr>style := style (appendCssText (setStyle s e p v) e ds)\<rparr>"
    by (rule Cons.IH)
  then show ?case by (simp add: appendCssText_def d setStyle_def)
qed

lemma appendCssText_frame:
  "activeModals (appendCssText s e decls) = activeModals s"
  "listeners (appendCssText s e decls) = listeners s"
  "attributes (appendCssText s e decls) = attributes s"
  "innerWidth (appendCssText s e decls) = innerWidth s"
  by (subst appendCssText_only_style, simp)+

lemma saveBodyStyles_frame:
  "activeModals (saveBodyStyles s) = activeModals s"
  "listeners (saveBodyStyles s) = listeners s"
  "attributes (saveBodyStyles s) = attributes s"
  "innerWidth (saveBodyStyles s) = innerWidth s"
  by (simp_all add: saveBodyStyles_def)

lemma preventBackgroundScroll_frame:
  "activeModals (preventBackgroundScroll s) = activeModals s"
  "listeners (preventBackgroundScroll s) = listeners s"
  "innerWidth (preventBackgroundScroll s) = innerWidth s"
  by (simp_all add: preventBackgroundScroll_def Let_def setAttribute_def setStyle_def)

lemma addTopIndicator_frame:
  "activeModals (addTopIndicator s c) = activeModals s"
  "listeners (addTopIndicator s c) = listeners s"
  "innerWidth (addTopIndicator s c) = innerWidth s"
  by (simp_all add: addTopIndicator_def createElement_def insertFirstChild_def Let_def
      appendCssText_frame split: option.splits)

lemma setModalStyles_frame:
  "activeModals (setModalStyles s m) = activeModals s"
  "listeners (setModalStyles s m) = listeners s"
  "innerWidth (setModalStyles s m) = innerWidth s"
  by (simp_all add: setModalStyles_def Let_def addTopIndicator_frame appendCssText_frame
      setTimeout_def)

lemma optimizeModalScroll_frame:
  "activeModals (optimizeModalScroll s m) = activeModals s"
  "listeners (optimizeModalScroll s m) = listeners s"
  "attributes (optimizeModalScroll s m) = attributes s"
  "innerWidth (optimizeModalScroll s m) = innerWidth s"
  by (simp_all add: optimizeModalScroll_def appendCssText_frame split: option.splits)

lemma addBackdropClose_frame:
  "activeModals (addBackdropClose s m) = activeModals s"
  "innerWidth (addBackdropClose s m) = innerWidth s"
  by (simp_all add: addBackdropClose_def setAttribute_def addEventListener_def
      split: option.splits)

lemma wireCloseButton_frame:
  "activeModals (wireCloseButton m b s) = activeModals s"
  "innerWidth (wireCloseButton m b s) = innerWidth s"
  by (simp_all add: wireCloseButton_def setAttribute_def addEventListener_def)

lemma fold_wireCloseButton_frame:
  "activeModals (fold (wireCloseButton m) bs s) = activeModals s"
  "innerWidth (fold (wireCloseButton m) bs s) = innerWidth s"
  by (induction bs arbitrary: s; simp add: wireCloseButton_frame)+

lemma setupModalCloseListeners_frame:
  "activeModals (setupModalCloseListeners s m) = activeModals s"
  "innerWidth (setupModalCloseListeners s m) = innerWidth s"
  by (simp_all add: setupModalCloseListeners_def Let_def fold_wireCloseButton_frame
      addEventListener_def)

lemma applyModalOptimizations_frame:
  "activeModals (applyModalOptimizations s m) = activeModals s"
  "innerWidth (applyModalOptimizations s m) = innerWidth s"
  by (simp_all add: applyModalOptimizations_def Let_def optimizeModalScroll_frame
      addBackdropClose_frame preventBackgroundScroll_frame setModalStyles_frame
      classListAdd_def)

subsection \<open>The registry under registration\<close>

lemma optimizeModal_registered:
  "m \<in> set (activeModals s) \<Longrightarrow> optimizeModal s m = s"
  by (simp add: optimizeModal_def arrayIncludes_def)

lemma optimizeModal_registry:
  "activeModals (optimizeModal s m) =
     (if m \<in> set (activeModals s) then activeModals s else activeModals s @ [m])"
  by (simp add: optimizeModal_def arrayIncludes_def Let_def setupModalCloseListeners_frame
      applyModalOptimizations_frame saveBodyStyles_frame)

lemma optimizeModal_innerWidth: "innerWidth (optimizeModal s m) = innerWidth s"
  by (simp add: optimizeModal_def arrayIncludes_def Let_def setupModalCloseListeners_frame
      applyModalOptimizations_frame saveBodyStyles_frame)

lemma optimizeModal_distinct:
  "distinct (activeModals s) \<Longrightarrow> distinct (activeModals (optimizeModal s m))"
  by (simp add: optimizeModal_registry)

lemma optimizeModal_idem: "optimizeModal (optimizeModal s m) m = optimizeModal s m"
  by (rule optimizeModal_registered) (simp add: optimizeModal_registry)

subsection \<open>The listeners registration attaches\<close>

lemma addBackdropClose_listeners:
  "\<exists>bp. listeners (addBackdropClose s m) = listeners s @ bp \<and>
        (bp = [] \<or> (\<exists>b. bp = [(b, ''click'', BackdropClick b m)]))"
  by (simp add: addBackdropClose_def setAttribute_def addEventListener_def split: option.splits)

lemma wireCloseButton_marks:
  "hasAttribute s b ''data-close-listener'' \<Longrightarrow>
   hasAttribute (wireCloseButton m x s) b ''data-close-listener''"
  by (simp add: wireCloseButton_def hasAttribute_def setAttribute_def addEventListener_def)

lemma fold_wireCloseButton_listeners:
  "\<exists>new. listeners (fold (wireCloseButton m) bs s) = listeners s @ new \<and> distinct new \<and>
         (\<forall>x\<in>set new. \<exists>b. x = (b, ''click'', CloseClick m) \<and>
                              \<not> hasAttribute s b ''data-close-listener'')"
proof (induction bs arbitrary: s)
  case Nil
  show ?case by simp
next
  case (Cons b bs)
  obtain new where new: "listeners (fold (wireCloseButton m) bs (wireCloseButton m b s)) =
        listeners (wireCloseButton m b s) @ new" "distinct new"
      "\<forall>x\<in>set new. \<exists>c. x = (c, ''click'', CloseClick m) \<and>
          \<not> hasAttribute (wireCloseButton m b s) c ''data-close-listener''"
    using Cons.IH [of "wireCloseButton m b s"] by blast
  have unmarked: "\<forall>x\<in>set new. \<exists>c. x = (c, ''click'', CloseClick m) \<and>
          \<not> hasAttribute s c ''data-close-listener''"
    using new(3) wireCloseButton_marks by blast
  show ?case
  proof (cases "hasAttribute s b ''data-close-listener''")
    case True
    then have "wireCloseButton m b s = s" by (simp add: wireCloseButton_def)
    with new unmarked show ?thesis by auto
  next
    case False
    then have l: "listeners (wireCloseButton m b s) = listeners s @ [(b, ''click'', CloseClick m)]"
      by (simp add: wireCloseButton_def setAttribute_def addEventListener_def)
    have marked: "hasAttribute (wireCloseButton m b s) b ''data-close-listener''"
      using False by (simp add: wireCloseButton_def hasAttribute_def setAttribute_def
          addEventListener_def)
    have fresh: "(b, ''click'', CloseClick m) \<notin> set new"
      using new(3) marked by auto
    have "listeners (fold (wireCloseButton m) (b # bs) s) =
          listeners s @ ((b, ''click'', CloseClick m) # new)"
      using new(1) l by simp
    moreover have "distinct ((b, ''click'', CloseClick m) # new)"
      using fresh new(2) by simp
    moreover have "\<forall>x\<in>set ((b, ''click'', CloseClick m) # new).
          \<exists>c. x = (c, ''click'', CloseClick m) \<and> \<not> hasAttribute s c ''data-close-listener''"
      using unmarked False by auto
    ultimately show ?thesis by blast
  qed
qed

lemma setupModalCloseListeners_listeners:
  "\<exists>new. listeners (setupModalCloseListeners s m) =
           listeners s @ new @ [(m, ''close'', CloseSignal m)] \<and> distinct new \<and>
         (\<forall>x\<in>set new. \<exists>b. x = (b, ''click'', CloseClick m))"
proof -
  obtain new where "listeners (fold (wireCloseButton m)
        (querySelectorAll s m closeButtonSelectors) s) = listeners s @ new" "distinct new"
      "\<forall>x\<in>set new. \<exists>b. x = (b, ''click'', CloseClick m) \<and>
          \<not> hasAttribute s b ''data-close-listener''"
    using fold_wireCloseButton_listeners by blast
  then show ?thesis
    by (auto simp: setupModalCloseListeners_def Let_def addEventListener_def)
qed

lemma applyModalOptimizations_listeners:
  "\<exists>bp. listeners (applyModalOptimizations s m) = listeners s @ bp \<and>
        (bp = [] \<or> (\<exists>b. bp = [(b, ''click'', BackdropClick b m)]))"
proof -
  define s3 where
    "s3 = preventBackgroundScroll (setModalStyles (classListAdd s m markerClass) m)"
  have l3: "listeners s3 = listeners s"
    by (simp add: s3_def preventBackgroundScroll_frame setModalStyles_frame classListAdd_def)
  have "applyModalOptimizations s m = optimizeModalScroll (addBackdropClose s3 m) m"
    by (simp add: applyModalOptimizations_def Let_def s3_def)
  then show ?thesis
    using addBackdropClose_listeners [of s3 m] l3 by (simp add: optimizeModalScroll_frame)
qed

lemma optimizeModal_listeners:
  "\<exists>new. listeners (optimizeModal s m) = listeners s @ new \<and> distinct new \<and>
         (m \<notin> set (activeModals s) \<longrightarrow> count_list new (m, ''close'', CloseSignal m) = 1)"
proof (cases "m \<in> set (activeModals s)")
  case True
  then show ?thesis by (simp add: optimizeModal_registered)
next
  case False
  define s2 where "s2 = saveBodyStyles (s\<lparr>activeModals := activeModals s @ [m]\<rparr>)"
  define s3 where "s3 = applyModalOptimizations s2 m"
  have o: "optimizeModal s m = setupModalCloseListeners s3 m"
    using False by (simp add: optimizeModal_def arrayIncludes_def Let_def s2_def s3_def)
  have l2: "listeners s2 = listeners s" by (simp add: s2_def saveBodyStyles_frame)
  obtain bp where bp: "listeners s3 = listeners s @ bp"
      "bp = [] \<or> (\<exists>b. bp = [(b, ''click'', BackdropClick b m)])"
    using applyModalOptimizations_listeners [of s2 m] l2 unfolding s3_def by auto
  obtain bs where bs: "listeners (setupModalCloseListeners s3 m) =
        listeners s3 @ bs @ [(m, ''close'', CloseSignal m)]" "distinct bs"
      "\<forall>x\<in>set bs. \<exists>b. x = (b, ''click'', CloseClick m)"
    using setupModalCloseListeners_listeners by blast
  have all: "listeners (optimizeModal s m) =
        listeners s @ (bp @ bs @ [(m, ''close'', CloseSignal m)])"
    using o bp(1) bs(1) by simp
  have d: "distinct (bp @ bs @ [(m, ''close'', CloseSignal m)])"
    using bp(2) bs(2,3) by auto
  have nb: "count_list bp (m, ''close'', CloseSignal m) = 0"
    using bp(2) by auto
  have ns: "count_list bs (m, ''close'', CloseSignal m) = 0"
    using bs(3) by (auto simp: count_list_0_iff)
  have c: "count_list (bp @ bs @ [(m, ''close'', CloseSignal m)]) (m, ''close'', CloseSignal m) = 1"
    using nb ns by simp
  show ?thesis using all d c by blast
qed

lemma count_list_distinct: "distinct xs \<Longrightarrow> x \<in> set xs \<Longrightarrow> count_list xs x = 1"
  by (induction xs) auto


text \<open>
  C6. A second \<open>optimizeModal\<close> on the same root changes nothing at all. After the two
  calls the root is in the registry exactly once (the registry holding every root once
  beforehand); the listeners that were there are still there, in front; and the listeners
  the two calls attached are pairwise different, so no close button has two click listeners
  for this overlay, the backdrop has at most one, and the root has exactly one listener for
  the \<open>close\<close> signal when it was not registered before.
\<close>

theorem registration_is_idempotent:
  "optimizeModal (optimizeModal s m) m = optimizeModal s m \<and>
   (distinct (activeModals s) \<longrightarrow>
      count_list (activeModals (optimizeModal (optimizeModal s m) m)) m = 1) \<and>
   take (length (listeners s)) (listeners (optimizeModal (optimizeModal s m) m)) = listeners s \<and>
   distinct (drop (length (listeners s)) (listeners (optimizeModal (optimizeModal s m) m))) \<and>
   (m \<notin> set (activeModals s) \<longrightarrow>
      count_list (drop (length (listeners s)) (listeners (optimizeModal (optimizeModal s m) m)))
        (m, ''close'', CloseSignal m) = 1)"
proof -
  obtain new where new: "listeners (optimizeModal s m) = listeners s @ new" "distinct new"
      "m \<notin> set (activeModals s) \<longrightarrow> count_list new (m, ''close'', CloseSignal m) = 1"
    using optimizeModal_listeners by blast
  have one: "count_list (activeModals (optimizeModal s m)) m = 1" if "distinct (activeModals s)"
  proof -
    have "distinct (activeModals (optimizeModal s m))" using that by (rule optimizeModal_distinct)
    moreover have "m \<in> set (activeModals (optimizeModal s m))"
      by (simp add: optimizeModal_registry)
    ultimately show ?thesis by (rule count_list_distinct)
  qed
  show ?thesis using new one by (simp add: optimizeModal_idem)
qed

theorem registration_is_idempotent_witness:
  "distinct (activeModals (demoPage 1280)) \<and> 10 \<notin> set (activeModals (demoPage 1280)) \<and>
   optimizeModal (optimizeModal (demoPage 1280) 10) 10 = optimizeModal (demoPage 1280) 10 \<and>
   count_list (activeModals (optimizeModal (optimizeModal (demoPage 1280) 10) 10)) 10 = 1 \<and>
   listeners (optimizeModal (demoPage 1280) 10) =
     [(11, ''click'', CloseClick 10), (10, ''close'', CloseSignal 10)] \<and>
   count_list (drop (length (listeners (demoPage 1280)))
      (listeners (optimizeModal (optimizeModal (demoPage 1280) 10) 10)))
      (10, ''close'', CloseSignal 10) = 1"
proof -
  have d: "distinct (activeModals (demoPage 1280))" by (simp add: demoPage_def)
  have n: "10 \<notin> set (activeModals (demoPage 1280))" by (simp add: demoPage_def)
  have l: "listeners (optimizeModal (demoPage 1280) 10) =
     [(11, ''click'', CloseClick 10), (10, ''close'', CloseSignal 10)]"
    by (simp add: eval_defs cong: let_weak_cong)
  show ?thesis
    using d n l registration_is_idempotent [of "demoPage 1280" 10] by blast
qed

section \<open>Mutation batches\<close>

subsection \<open>The registry under the observer\<close>

lemma registerIfNew_registry:
  "activeModals (registerIfNew m s) =
     (if m \<in> set (activeModals s) then activeModals s else activeModals s @ [m])"
  by (simp add: registerIfNew_def arrayIncludes_def optimizeModal_registry)

lemma fold_registerIfNew_distinct:
  "distinct (activeModals s) \<Longrightarrow> distinct (activeModals (fold registerIfNew ms s))"
  by (induction ms arbitrary: s) (simp_all add: registerIfNew_registry)

lemma checkForModal_distinct:
  assumes "distinct (activeModals s)"
  shows "distinct (activeModals (checkForModal s e))"
proof -
  have "distinct (activeModals (if c then optimizeModal s e else s))" for c
    using assms by (simp add: optimizeModal_distinct)
  then show ?thesis
    unfolding checkForModal_def Let_def by (rule fold_registerIfNew_distinct)
qed

lemma handleAdded_distinct:
  "distinct (activeModals s) \<Longrightarrow> distinct (activeModals (handleAdded n s))"
  by (cases n) (simp_all add: handleAdded_def checkForModal_distinct)

lemma fold_handleAdded_distinct:
  "distinct (activeModals s) \<Longrightarrow> distinct (activeModals (fold handleAdded ns s))"
  by (induction ns arbitrary: s) (simp_all add: handleAdded_distinct)

lemma handleRemoved_distinct:
  "distinct (activeModals s) \<Longrightarrow> distinct (activeModals (handleRemoved n s))"
  by (cases n) (simp_all add: handleRemoved_def checkForModalRemoval_distinct)

lemma handleRemoved_registry:
  "set (activeModals (handleRemoved n s)) \<subseteq> set (activeModals s)"
  by (cases n) (simp_all add: handleRemoved_def checkForModalRemoval_registry)

lemma fold_handleRemoved_distinct:
  "distinct (activeModals s) \<Longrightarrow> distinct (activeModals (fold handleRemoved ns s))"
  by (induction ns arbitrary: s) (simp_all add: handleRemoved_distinct)

lemma fold_handleRemoved_registry:
  "set (activeModals (fold handleRemoved ns s)) \<subseteq> set (activeModals s)"
proof (induction ns arbitrary: s)
  case Nil
  show ?case by simp
next
  case (Cons n ns)
  have "set (activeModals (fold handleRemoved ns (handleRemoved n s))) \<subseteq>
        set (activeModals (handleRemoved n s))" by (rule Cons.IH)
  also have "\<dots> \<subseteq> set (activeModals s)" by (rule handleRemoved_registry)
  finally show ?case by simp
qed

lemma fold_handleRemoved_gone:
  "distinct (activeModals s) \<Longrightarrow> ElementNode e \<in> set ns \<Longrightarrow>
   e \<notin> set (activeModals (fold handleRemoved ns s))"
proof (induction ns arbitrary: s)
  case Nil
  then show ?case by simp
next
  case (Cons n ns)
  show ?case
  proof (cases "n = ElementNode e")
    case True
    have "e \<notin> set (activeModals (handleRemoved n s))"
      using Cons.prems(1) True
      by (simp add: handleRemoved_def ELEMENT_NODE_def checkForModalRemoval_gone)
    then show ?thesis
      using fold_handleRemoved_registry [of ns "handleRemoved n s"] by auto
  next
    case False
    with Cons.prems(2) have "ElementNode e \<in> set ns" by simp
    moreover have "distinct (activeModals (handleRemoved n s))"
      using Cons.prems(1) by (rule handleRemoved_distinct)
    ultimately show ?thesis using Cons.IH by simp
  qed
qed

lemma handleMutation_distinct:
  "distinct (activeModals s) \<Longrightarrow> distinct (activeModals (handleMutation r s))"
  by (simp add: handleMutation_def fold_handleRemoved_distinct fold_handleAdded_distinct)

lemma handleMutation_gone:
  "distinct (activeModals s) \<Longrightarrow> ElementNode e \<in> set (removedNodes r) \<Longrightarrow>
   e \<notin> set (activeModals (handleMutation r s))"
  by (simp add: handleMutation_def fold_handleRemoved_gone fold_handleAdded_distinct)

lemma fold_handleAdded_no_element:
  "list_all (\<lambda>n. nodeType n \<noteq> ELEMENT_NODE) ns \<Longrightarrow> fold handleAdded ns s = s"
  by (induction ns arbitrary: s) (auto simp: handleAdded_def ELEMENT_NODE_def split: node.splits)

lemma handleMutation_no_element:
  "addsNoElement r \<Longrightarrow> set (activeModals (handleMutation r s)) \<subseteq> set (activeModals s)"
  by (simp add: handleMutation_def addsNoElement_def fold_handleAdded_no_element
      fold_handleRemoved_registry)

lemma fold_handleMutation_no_element:
  "list_all addsNoElement rs \<Longrightarrow>
   set (activeModals (fold handleMutation rs s)) \<subseteq> set (activeModals s)"
proof (induction rs arbitrary: s)
  case Nil
  show ?case by simp
next
  case (Cons r rs)
  then have "set (activeModals (fold handleMutation rs (handleMutation r s))) \<subseteq>
        set (activeModals (handleMutation r s))" by simp
  also have "\<dots> \<subseteq> set (activeModals s)"
    using Cons.prems by (simp add: handleMutation_no_element)
  finally show ?case by simp
qed

lemma observerCallback_distinct:
  "distinct (activeModals s) \<Longrightarrow> distinct (activeModals (observerCallback s rs))"
  unfolding observerCallback_def
  by (induction rs arbitrary: s) (simp_all add: handleMutation_distinct)

text \<open>
  C2. The records of a batch are handled one after the other, and within a
  record every addition is handled before every removal. So an element that a record
  removes (and may have added) is out of the registry after that record; it is still out
  after the batch when the records that follow add no element. The registry holds every
  root once.
\<close>

theorem removals_follow_additions_per_record:
  assumes "distinct (activeModals s)"
    and "ElementNode e \<in> set (removedNodes r)"
    and "list_all addsNoElement rs'"
  shows "observerCallback s (rs @ r # rs') =
           observerCallback
             (fold handleRemoved (removedNodes r)
                (fold handleAdded (addedNodes r) (observerCallback s rs))) rs' \<and>
         e \<notin> set (activeModals (observerCallback s (rs @ r # rs')))"
proof -
  define s1 where "s1 = observerCallback s rs"
  have order: "observerCallback s (rs @ r # rs') =
      observerCallback (handleMutation r s1) rs'"
    by (simp add: observerCallback_def s1_def)
  have "distinct (activeModals s1)"
    unfolding s1_def using assms(1) by (rule observerCallback_distinct)
  then have "e \<notin> set (activeModals (handleMutation r s1))"
    using assms(2) by (rule handleMutation_gone)
  moreover have "set (activeModals (observerCallback (handleMutation r s1) rs')) \<subseteq>
      set (activeModals (handleMutation r s1))"
    unfolding observerCallback_def using assms(3) by (rule fold_handleMutation_no_element)
  ultimately have "e \<notin> set (activeModals (observerCallback (handleMutation r s1) rs'))"
    by blast
  then show ?thesis
    using order by (simp add: handleMutation_def s1_def)
qed

lemma demoPage_add_then_remove:
  "activeModals (fold handleAdded [ElementNode 10] (demoPage 1280)) = [10]"
  by (simp add: eval_defs cong: let_weak_cong)

theorem removals_follow_additions_per_record_witness:
  "distinct (activeModals (demoPage 1280)) \<and>
   ElementNode 10 \<in> set (removedNodes \<lparr>addedNodes = [ElementNode 10], removedNodes = [ElementNode 10]\<rparr>) \<and>
   list_all addsNoElement [\<lparr>addedNodes = [TextNode 1], removedNodes = []\<rparr>] \<and>
   activeModals (fold handleAdded [ElementNode 10] (demoPage 1280)) = [10] \<and>
   10 \<notin> set (activeModals (observerCallback (demoPage 1280)
        ([] @ \<lparr>addedNodes = [ElementNode 10], removedNodes = [ElementNode 10]\<rparr> #
           [\<lparr>addedNodes = [TextNode 1], removedNodes = []\<rparr>])))"
proof -
  have d: "distinct (activeModals (demoPage 1280))" by (simp add: demoPage_def)
  have m: "ElementNode 10 \<in>
      set (removedNodes \<lparr>addedNodes = [ElementNode 10], removedNodes = [ElementNode 10]\<rparr>)"
    by simp
  have a: "list_all addsNoElement [\<lparr>addedNodes = [TextNode 1], removedNodes = []\<rparr>]"
    by (simp add: addsNoElement_def ELEMENT_NODE_def)
  show ?thesis
    using d m a demoPage_add_then_remove
      removals_follow_additions_per_record [OF d m a, of "[]"]
    by blast
qed

text \<open>
  The order is not that of the whole batch. Take a batch of two records, the first removing
  overlay 10 and the second adding it again (an overlay moved to another parent). The
  removal of the first record is handled before the addition of the second, and the overlay
  is in the registry after the batch; handling every addition of the batch before every
  removal would have left it out.
\<close>

theorem removal_before_addition_in_batch:
  "ElementNode 10 \<in> set (concat (map addedNodes
      [\<lparr>addedNodes = [], removedNodes = [ElementNode 10]\<rparr>,
       \<lparr>addedNodes = [ElementNode 10], removedNodes = []\<rparr>])) \<and>
   ElementNode 10 \<in> set (concat (map removedNodes
      [\<lparr>addedNodes = [], removedNodes = [ElementNode 10]\<rparr>,
       \<lparr>addedNodes = [ElementNode 10], removedNodes = []\<rparr>])) \<and>
   activeModals (observerCallback (openPage 1280)
      [\<lparr>addedNodes = [], removedNodes = [ElementNode 10]\<rparr>,
       \<lparr>addedNodes = [ElementNode 10], removedNodes = []\<rparr>]) = [20, 10] \<and>
   activeModals (additionsThenRemovals (openPage 1280)
      [\<lparr>addedNodes = [], removedNodes = [ElementNode 10]\<rparr>,
       \<lparr>addedNodes = [ElementNode 10], removedNodes = []\<rparr>]) = [20]"
proof (intro conjI)
  show "activeModals (observerCallback (openPage 1280)
      [\<lparr>addedNodes = [], removedNodes = [ElementNode 10]\<rparr>,
       \<lparr>addedNodes = [ElementNode 10], removedNodes = []\<rparr>]) = [20, 10]"
    by (simp add: openPage_desktop eval_defs cong: let_weak_cong)
  show "activeModals (additionsThenRemovals (openPage 1280)
      [\<lparr>addedNodes = [], removedNodes = [ElementNode 10]\<rparr>,
       \<lparr>addedNodes = [ElementNode 10], removedNodes = []\<rparr>]) = [20]"
    by (simp add: openPage_desktop additionsThenRemovals_def eval_defs cong: let_weak_cong)
qed simp_all

section \<open>The lock attribute and the registry\<close>

subsection \<open>Where the lock attribute follows the registry\<close>

lemma addBackdropClose_keeps:
  "hasAttribute s b a \<Longrightarrow> hasAttribute (addBackdropClose s m) b a"
  by (auto simp: addBackdropClose_def hasAttribute_def setAttribute_def addEventListener_def
      split: option.splits)

lemma wireCloseButton_keeps:
  "hasAttribute s b a \<Longrightarrow> hasAttribute (wireCloseButton m x s) b a"
  by (auto simp: wireCloseButton_def hasAttribute_def setAttribute_def addEventListener_def)

lemma fold_wireCloseButton_keeps:
  "hasAttribute s b a \<Longrightarrow> hasAttribute (fold (wireCloseButton m) xs s) b a"
  by (induction xs arbitrary: s) (simp_all add: wireCloseButton_keeps)

lemma setupModalCloseListeners_keeps:
  "hasAttribute s b a \<Longrightarrow> hasAttribute (setupModalCloseListeners s m) b a"
proof -
  assume "hasAttribute s b a"
  then have "hasAttribute (fold (wireCloseButton m) (querySelectorAll s m closeButtonSelectors) s) b a"
    by (rule fold_wireCloseButton_keeps)
  then show ?thesis
    by (simp add: setupModalCloseListeners_def Let_def hasAttribute_def addEventListener_def)
qed

lemma applyModalOptimizations_locks:
  "hasAttribute (applyModalOptimizations s m) body lockAttribute"
proof -
  have "hasAttribute (addBackdropClose (preventBackgroundScroll r) m) body lockAttribute" for r
    using preventBackgroundScroll_sets by (rule addBackdropClose_keeps)
  then show ?thesis
    by (simp add: applyModalOptimizations_def Let_def hasAttribute_def optimizeModalScroll_frame)
qed

lemma optimizeModal_locks:
  "m \<notin> set (activeModals s) \<Longrightarrow> hasAttribute (optimizeModal s m) body lockAttribute"
proof -
  assume "m \<notin> set (activeModals s)"
  then have "optimizeModal s m =
      setupModalCloseListeners
        (applyModalOptimizations (saveBodyStyles (s\<lparr>activeModals := activeModals s @ [m]\<rparr>)) m) m"
    by (simp add: optimizeModal_def arrayIncludes_def Let_def)
  then show ?thesis
    using applyModalOptimizations_locks setupModalCloseListeners_keeps by simp
qed

lemma optimizeModal_lock_invariant:
  assumes "hasAttribute s body lockAttribute \<longleftrightarrow> activeModals s \<noteq> []"
  shows "hasAttribute (optimizeModal s m) body lockAttribute \<longleftrightarrow>
         activeModals (optimizeModal s m) \<noteq> []"
proof (cases "m \<in> set (activeModals s)")
  case True
  with assms show ?thesis by (simp add: optimizeModal_registered)
next
  case False
  then show ?thesis by (simp add: optimizeModal_locks optimizeModal_registry)
qed

lemma doCloseModal_attributes_kept:
  "remove1 m (activeModals s) \<noteq> [] \<Longrightarrow> attributes (doCloseModal s m) = attributes s"
  by (cases "m \<in> set (activeModals s)")
    (simp_all add: doCloseModal_def Let_def indexOf_mem splice1_indexOf remove1_absent
      classListRemove_def dispatchEvent_def)

lemma doCloseModal_lock_invariant:
  assumes "hasAttribute s body lockAttribute \<longleftrightarrow> activeModals s \<noteq> []"
  shows "hasAttribute (doCloseModal s m) body lockAttribute \<longleftrightarrow>
         activeModals (doCloseModal s m) \<noteq> []"
proof (cases "remove1 m (activeModals s) = []")
  case True
  then show ?thesis by (simp add: doCloseModal_unlocks doCloseModal_registry)
next
  case False
  then have "activeModals s \<noteq> []" by auto
  with assms False show ?thesis
    by (simp add: doCloseModal_registry hasAttribute_def doCloseModal_attributes_kept)
qed

subsection \<open>The registry holds every root once\<close>

lemma doCloseModal_distinct:
  "distinct (activeModals s) \<Longrightarrow> distinct (activeModals (doCloseModal s m))"
  by (simp add: doCloseModal_registry)

lemma fold_registerIfShown_distinct:
  "distinct (activeModals s) \<Longrightarrow> distinct (activeModals (fold registerIfShown ms s))"
  by (induction ms arbitrary: s) (simp_all add: registerIfShown_def optimizeModal_distinct)

lemma construct_distinct: "distinct (activeModals (construct s))"
  by (simp add: construct_def checkExistingModals_def fold_registerIfShown_distinct)

lemma closeModal_distinct:
  "distinct (activeModals s) \<Longrightarrow> distinct (activeModals (closeModal s m))"
  by (simp add: closeModal_def Let_def doCloseModal_distinct setTimeout_def setStyle_def)

lemma keydown_distinct:
  "distinct (activeModals s) \<Longrightarrow> distinct (activeModals (keydown s key))"
  by (simp add: keydown_def closeModal_distinct)

lemma runTask_distinct:
  "distinct (activeModals s) \<Longrightarrow> distinct (activeModals (runTask k s))"
  by (cases k) (simp_all add: doCloseModal_distinct setStyle_def)

lemma fold_runTask_distinct:
  "distinct (activeModals s) \<Longrightarrow> distinct (activeModals (fold runTask ks s))"
  by (induction ks arbitrary: s) (simp_all add: runTask_distinct)

lemma elapse_distinct:
  "distinct (activeModals s) \<Longrightarrow> distinct (activeModals (elapse t s))"
  by (simp add: elapse_def Let_def fold_runTask_distinct)

text \<open>
  C1. The lock attribute is on the body exactly when the registry is not empty: registration
  and the close continuation keep it so (the two lemmas above), the removal path does not.
  \<open>checkForModalRemoval\<close> restores the body whenever the removed element is registered,
  without looking at the rest of the registry, and never restores it for the overlays it
  finds below the removed element. With overlays 10 and 20 open, the removal of 10 clears
  the lock attribute while 20 is still registered; with overlay 31 open inside section 30,
  the removal of 30 empties the registry while the lock attribute stays.
\<close>

theorem removal_breaks_lock_invariant:
  "activeModals (openPage 1280) = [10, 20] \<and>
   hasAttribute (openPage 1280) body lockAttribute \<and>
   activeModals (observerCallback (openPage 1280)
      [\<lparr>addedNodes = [], removedNodes = [ElementNode 10]\<rparr>]) = [20] \<and>
   \<not> hasAttribute (observerCallback (openPage 1280)
      [\<lparr>addedNodes = [], removedNodes = [ElementNode 10]\<rparr>]) body lockAttribute \<and>
   activeModals (sectionPage 1280) = [31] \<and>
   hasAttribute (sectionPage 1280) body lockAttribute \<and>
   activeModals (observerCallback (sectionPage 1280)
      [\<lparr>addedNodes = [], removedNodes = [ElementNode 30]\<rparr>]) = [] \<and>
   hasAttribute (observerCallback (sectionPage 1280)
      [\<lparr>addedNodes = [], removedNodes = [ElementNode 30]\<rparr>]) body lockAttribute"
proof (intro conjI)
  show "activeModals (openPage 1280) = [10, 20]" by (simp add: openPage_desktop)
  show "hasAttribute (openPage 1280) body lockAttribute"
    by (simp add: openPage_desktop hasAttribute_def body_def)
  show "activeModals (sectionPage 1280) = [31]" by (simp add: sectionPage_desktop)
  show "hasAttribute (sectionPage 1280) body lockAttribute"
    by (simp add: sectionPage_desktop hasAttribute_def body_def)
  show "activeModals (observerCallback (openPage 1280)
      [\<lparr>addedNodes = [], removedNodes = [ElementNode 10]\<rparr>]) = [20]"
    by (simp add: openPage_desktop eval_defs cong: let_weak_cong)
  show "\<not> hasAttribute (observerCallback (openPage 1280)
      [\<lparr>addedNodes = [], removedNodes = [ElementNode 10]\<rparr>]) body lockAttribute"
    by (simp add: openPage_desktop eval_defs cong: let_weak_cong)
  show "activeModals (observerCallback (sectionPage 1280)
      [\<lparr>addedNodes = [], removedNodes = [ElementNode 30]\<rparr>]) = []"
    by (simp add: sectionPage_desktop eval_defs cong: let_weak_cong)
  show "hasAttribute (observerCallback (sectionPage 1280)
      [\<lparr>addedNodes = [], removedNodes = [ElementNode 30]\<rparr>]) body lockAttribute"
    by (simp add: sectionPage_desktop eval_defs cong: let_weak_cong)
qed

end
